theory Spec2Isabelle
  imports Complex_Main "HOL-Library.Word" "HOL-Library.Sublist"
begin

section \<open>Strings of the program\<close>

text \<open>
  A JavaScript string is a sequence of 16-bit code units. The literals of the source are
  written through \<open>js\<close>, which embeds an ASCII literal code unit by code unit.
\<close>

type_synonym uchar = "16 word"
type_synonym jsstring = "uchar list"

definition js :: "string \<Rightarrow> jsstring" where
  "js s = map (\<lambda>c. of_nat (of_char c)) s"

definition COMMA :: uchar where "COMMA = 0x2C"
definition SPACE :: uchar where "SPACE = 0x20"
definition LPAREN :: uchar where "LPAREN = 0x28"
definition RPAREN :: uchar where "RPAREN = 0x29"
definition LETTER_p :: uchar where "LETTER_p = 0x70"
definition LETTER_f :: uchar where "LETTER_f = 0x66"
definition LETTER_c :: uchar where "LETTER_c = 0x63"
definition LETTER_k :: uchar where "LETTER_k = 0x6B"

text \<open>
  \<open>String.prototype.trim\<close> removes the code units of WhiteSpace and LineTerminator from
  both ends: TAB, LF, VT, FF, CR, SP, NBSP, U+1680, U+2000 to U+200A, LS, PS, U+202F,
  U+205F, U+3000 and the byte order mark U+FEFF.
\<close>

definition is_ws :: "uchar \<Rightarrow> bool" where
  "is_ws c = (c \<in> {0x9, 0xA, 0xB, 0xC, 0xD, 0x20, 0xA0, 0x1680, 0x2028, 0x2029,
                    0x202F, 0x205F, 0x3000, 0xFEFF} \<or> (0x2000 \<le> c \<and> c \<le> 0x200A))"

definition trim :: "jsstring \<Rightarrow> jsstring" where
  "trim s = rev (dropWhile is_ws (rev (dropWhile is_ws s)))"

text \<open>
  \<open>s.split(d)\<close> for a separator of one code unit: the pieces between the separators, the
  empty ones included; the empty string gives one empty piece. The result is never empty,
  so the last branch of the \<open>case\<close> is never taken.
\<close>

fun split_on :: "'a \<Rightarrow> 'a list \<Rightarrow> 'a list list" where
  "split_on d [] = [[]]"
| "split_on d (c # cs) =
     (if c = d then [] # split_on d cs
      else (case split_on d cs of p # ps \<Rightarrow> (c # p) # ps | [] \<Rightarrow> [[c]]))"

text \<open>\<open>pieces.join(sep)\<close>.\<close>

fun join :: "'a list \<Rightarrow> 'a list list \<Rightarrow> 'a list" where
  "join sep [] = []"
| "join sep [p] = p"
| "join sep (p # q # ps) = p @ sep @ join sep (q # ps)"

section \<open>Column tags\<close>

text \<open>
  The regular expressions of \<open>addTable\<close> carry the flag \<open>i\<close> and not the flag \<open>u\<close>: a
  pattern letter matches a code unit when both have the same upper-case form, and a code
  unit outside ASCII is never mapped into ASCII. A lower-case ASCII pattern letter
  therefore matches itself and its capital, \<open>0x20\<close> below it, and nothing else.
\<close>

definition ci_eq :: "uchar \<Rightarrow> uchar \<Rightarrow> bool" where
  "ci_eq p c = (c = p \<or> c = p - 0x20)"

text \<open>\<open>/\(lk\)/i\<close> matched against the four code units \<open>a b c d\<close>, for a pattern letter \<open>l\<close>.\<close>

definition match_tag :: "uchar \<Rightarrow> uchar \<Rightarrow> uchar \<Rightarrow> uchar \<Rightarrow> uchar \<Rightarrow> bool" where
  "match_tag l a b c d = (a = LPAREN \<and> ci_eq l b \<and> ci_eq LETTER_k c \<and> d = RPAREN)"

text \<open>\<open>/\((pk|fk|ck)\)/i\<close> matched against four code units.\<close>

definition match_any_tag :: "uchar \<Rightarrow> uchar \<Rightarrow> uchar \<Rightarrow> uchar \<Rightarrow> bool" where
  "match_any_tag a b c d =
     (match_tag LETTER_p a b c d \<or> match_tag LETTER_f a b c d \<or> match_tag LETTER_c a b c d)"

text \<open>\<open>/\(lk\)/i.test(item)\<close>: is there a position of \<open>item\<close> where the pattern matches.\<close>

fun regex_test :: "uchar \<Rightarrow> jsstring \<Rightarrow> bool" where
  "regex_test l (a # b # c # d # rest) =
     (match_tag l a b c d \<or> regex_test l (b # c # d # rest))"
| "regex_test l s = False"

text \<open>
  \<open>item.replace(/\((pk|fk|ck)\)/gi, '')\<close>: one scan from the left; a match is dropped and
  the scan goes on behind it, any other code unit is kept.
\<close>

fun remove_tags :: "jsstring \<Rightarrow> jsstring" where
  "remove_tags (a # b # c # d # rest) =
     (if match_any_tag a b c d then remove_tags rest
      else a # remove_tags (b # c # d # rest))"
| "remove_tags s = s"

record column =
  name :: jsstring
  isPK :: bool
  isFK :: bool
  isCK :: bool

definition parse_column :: "jsstring \<Rightarrow> column" where
  "parse_column item =
     \<lparr>name = trim (remove_tags item),
      isPK = regex_test LETTER_p item,
      isFK = regex_test LETTER_f item,
      isCK = regex_test LETTER_c item\<rparr>"

text \<open>The column parser of \<open>addTable\<close>.\<close>

definition parse_columns :: "jsstring \<Rightarrow> column list" where
  "parse_columns schemaText =
     map parse_column (filter (\<lambda>i. i \<noteq> []) (map trim (split_on COMMA schemaText)))"

subsection \<open>What the claims call a tag, an occurrence and a removal\<close>

text \<open>ASCII capitals to lower case; every other code unit stays.\<close>

definition ascii_lower :: "uchar \<Rightarrow> uchar" where
  "ascii_lower c = (if 0x41 \<le> c \<and> c \<le> 0x5A then c + 0x20 else c)"

definition tag_text :: "uchar \<Rightarrow> jsstring" where
  "tag_text l = [LPAREN, l, LETTER_k, RPAREN]"

text \<open>The string contains the tag as a substring, letter case ignored.\<close>

definition contains_tag :: "uchar \<Rightarrow> jsstring \<Rightarrow> bool" where
  "contains_tag l s = sublist (tag_text l) (map ascii_lower s)"

text \<open>One of the three tags occurs in \<open>s\<close> at position \<open>i\<close>.\<close>

definition tag_at :: "jsstring \<Rightarrow> nat \<Rightarrow> bool" where
  "tag_at s i =
     (take 4 (drop i (map ascii_lower s))
        \<in> {tag_text LETTER_p, tag_text LETTER_f, tag_text LETTER_c})"

text \<open>Position \<open>j\<close> lies inside an occurrence of a tag.\<close>

definition in_tag :: "jsstring \<Rightarrow> nat \<Rightarrow> bool" where
  "in_tag s j = (\<exists>i\<in>{j - 3..j}. tag_at s i)"

text \<open>The string with every occurrence of a tag taken out.\<close>

definition without_tags :: "jsstring \<Rightarrow> jsstring" where
  "without_tags s = nths s {j. \<not> in_tag s j}"

text \<open>
  \<open>r\<close> is \<open>s\<close> without its surrounding whitespace: what is cut off at both ends is
  whitespace, and \<open>r\<close> neither starts nor ends with whitespace.
\<close>

definition trimmed_of :: "jsstring \<Rightarrow> jsstring \<Rightarrow> bool" where
  "trimmed_of r s =
     (\<exists>u v. s = u @ r @ v \<and> list_all is_ws u \<and> list_all is_ws v \<and>
            (r = [] \<or> (\<not> is_ws (hd r) \<and> \<not> is_ws (last r))))"

text \<open>The column that the claims describe for one piece of the schema text.\<close>

definition tagged_column :: "jsstring \<Rightarrow> column" where
  "tagged_column item =
     \<lparr>name = trim (without_tags item),
      isPK = contains_tag LETTER_p item,
      isFK = contains_tag LETTER_f item,
      isCK = contains_tag LETTER_c item\<rparr>"

subsection \<open>The column lists of the round trip\<close>

definition at_most_one_flag :: "column \<Rightarrow> bool" where
  "at_most_one_flag c =
     (\<not> (isPK c \<and> isFK c) \<and> \<not> (isPK c \<and> isCK c) \<and> \<not> (isFK c \<and> isCK c))"

text \<open>
  A column with at most one flag and a name that is not empty, has no comma, has none of
  the substrings \<open>(pk)\<close>, \<open>(fk)\<close>, \<open>(ck)\<close> as they are written here, and has no
  whitespace at its ends.
\<close>

definition claimed_column :: "column \<Rightarrow> bool" where
  "claimed_column c =
     (at_most_one_flag c \<and> name c \<noteq> [] \<and> COMMA \<notin> set (name c) \<and>
      \<not> sublist (js ''(pk)'') (name c) \<and> \<not> sublist (js ''(fk)'') (name c) \<and>
      \<not> sublist (js ''(ck)'') (name c) \<and>
      \<not> is_ws (hd (name c)) \<and> \<not> is_ws (last (name c)))"

text \<open>The same with the three substrings excluded in every letter case.\<close>

definition plain_column :: "column \<Rightarrow> bool" where
  "plain_column c =
     (at_most_one_flag c \<and> name c \<noteq> [] \<and> COMMA \<notin> set (name c) \<and>
      \<not> contains_tag LETTER_p (name c) \<and> \<not> contains_tag LETTER_f (name c) \<and>
      \<not> contains_tag LETTER_c (name c) \<and>
      \<not> is_ws (hd (name c)) \<and> \<not> is_ws (last (name c)))"

text \<open>None of the three tags occurs in the string, in any letter case.\<close>

definition tag_free :: "jsstring \<Rightarrow> bool" where
  "tag_free s = (\<forall>l\<in>{LETTER_p, LETTER_f, LETTER_c}. \<not> contains_tag l s)"

section \<open>Values held by the application\<close>

text \<open>
  The numbers that the component only stores (positions, the sizes of a marker) are
  rationals. The numbers of the image export, which the component adds, are of a type
  \<open>'num\<close> whose arithmetic belongs to the platform: nothing is assumed of it, so it may
  round as the doubles of JavaScript do. \<open>Date.now()\<close> is a parameter \<open>now\<close> of the
  operations that read the clock, and \<open>decimal\<close> is its text inside a template literal.
\<close>

fun decimal :: "nat \<Rightarrow> jsstring" where
  "decimal n =
     (if n < 10 then [of_nat (48 + n)] else decimal (n div 10) @ [of_nat (48 + n mod 10)])"

datatype exn = TypeError | SyntaxError | OtherError jsstring

datatype json =
    JNull | JBool bool | JNum rat | JStr jsstring | JArr "json list"
  | JObj "(jsstring \<times> json) list"

text \<open>
  A state container of the component holds a JavaScript value: an array, whose elements are
  the objects of the data model, or a value that is not an array, as \<open>JSON.parse\<close> may
  return one.
\<close>

datatype 'a jsvalue =
    Array "'a list" | Null | Boolean bool | Number rat | String jsstring
  | Object "(jsstring \<times> json) list"

text \<open>\<open>Array.isArray\<close>.\<close>

fun isArray :: "'a jsvalue \<Rightarrow> bool" where
  "isArray (Array xs) = True"
| "isArray v = False"

text \<open>
  \<open>v.filter(p)\<close> and \<open>v.map(f)\<close>: only an array has these methods; on any other value the
  call raises a TypeError.
\<close>

fun js_filter :: "('a \<Rightarrow> bool) \<Rightarrow> 'a jsvalue \<Rightarrow> exn + 'a jsvalue" where
  "js_filter p (Array xs) = Inr (Array (filter p xs))"
| "js_filter p v = Inl TypeError"

fun js_map :: "('a \<Rightarrow> 'a) \<Rightarrow> 'a jsvalue \<Rightarrow> exn + 'a jsvalue" where
  "js_map f (Array xs) = Inr (Array (map f xs))"
| "js_map f v = Inl TypeError"

text \<open>
  \<open>v.concat(x)\<close> for an object \<open>x\<close> of the data model: an array gets \<open>x\<close> as its last
  element; a string has a method of this name too, which appends the text of \<open>x\<close>; any
  other value raises a TypeError.
\<close>

fun js_concat :: "'a jsvalue \<Rightarrow> 'a \<Rightarrow> exn + 'a jsvalue" where
  "js_concat (Array xs) x = Inr (Array (xs @ [x]))"
| "js_concat (String t) x = Inr (String (t @ js ''[object Object]''))"
| "js_concat v x = Inl TypeError"

text \<open>
  \<open>v.length === 0\<close>: reading a property of \<open>null\<close> raises a TypeError; a boolean or a
  number has no such property; an object has it when it was stored with one.
\<close>

fun length_is_zero :: "'a jsvalue \<Rightarrow> exn + bool" where
  "length_is_zero (Array xs) = Inr (xs = [])"
| "length_is_zero Null = Inl TypeError"
| "length_is_zero (String t) = Inr (t = [])"
| "length_is_zero (Object ps) = Inr (map_of ps (js ''length'') = Some (JNum 0))"
| "length_is_zero v = Inr False"

text \<open>The two handlers that \<open>FlowApp\<close> stores in the data of every node.\<close>

datatype callback = OnDeleteNode | OnStartEdit

text \<open>
  \<open>columns\<close> is optional: the source reads it with \<open>?.\<close>, since a node restored from
  storage may lack it.
\<close>

record node_data =
  label :: jsstring
  columns :: "column list option"
  color :: jsstring
  onDelete :: "callback option"
  onEdit :: "callback option"

record position =
  pos_x :: rat
  pos_y :: rat

text \<open>
  \<open>node_others\<close> stands for the properties that the canvas library keeps on a node
  (measured width and height, selection, dragging).
\<close>

record node =
  node_id :: jsstring
  node_type :: jsstring
  position :: position
  data :: node_data
  node_others :: "(jsstring \<times> json) list"

text \<open>The connection that the canvas library passes to \<open>onConnect\<close>.\<close>

record connection =
  source :: jsstring
  target :: jsstring
  sourceHandle :: "jsstring option"
  targetHandle :: "jsstring option"

datatype marker_type = Arrow | ArrowClosed

record marker_object =
  marker_type :: marker_type
  marker_color :: jsstring
  marker_width :: rat
  marker_height :: rat

text \<open>
  An end of an edge carries a marker object of the library, or the id of a marker drawn by
  the application (\<open>many-side\<close>), or nothing (\<open>undefined\<close>, here \<open>None\<close>).
\<close>

datatype marker = MarkerObject marker_object | MarkerId jsstring

record edge_style =
  strokeWidth :: rat
  stroke :: jsstring

record edge = connection +
  edge_id :: jsstring
  edge_type :: jsstring
  style :: edge_style
  markerStart :: "marker option"
  markerEnd :: "marker option"

record legend_item =
  legend_id :: jsstring
  legend_name :: jsstring
  hex :: jsstring

definition INITIAL_LEGEND :: "legend_item list" where
  "INITIAL_LEGEND =
     [\<lparr>legend_id = js ''1'', legend_name = js ''Reporting'', hex = js ''#fbbf24''\<rparr>,
      \<lparr>legend_id = js ''2'', legend_name = js ''Warehouse'', hex = js ''#94a3b8''\<rparr>,
      \<lparr>legend_id = js ''3'', legend_name = js ''Staging'', hex = js ''#cd7f32''\<rparr>,
      \<lparr>legend_id = js ''4'', legend_name = js ''Refined'', hex = js ''#10b981''\<rparr>,
      \<lparr>legend_id = js ''5'', legend_name = js ''Sensitive'', hex = js ''#f43f5e''\<rparr>,
      \<lparr>legend_id = js ''6'', legend_name = js ''External'', hex = js ''#a855f7''\<rparr>,
      \<lparr>legend_id = js ''7'', legend_name = js ''Master Data'', hex = js ''#3b82f6''\<rparr>,
      \<lparr>legend_id = js ''8'', legend_name = js ''Audit/Logs'', hex = js ''#64748b''\<rparr>,
      \<lparr>legend_id = js ''9'', legend_name = js ''Temporary'', hex = js ''#ec4899''\<rparr>,
      \<lparr>legend_id = js ''10'', legend_name = js ''Archive'', hex = js ''#0f172a''\<rparr>]"

section \<open>Effects on the outside\<close>

text \<open>
  A text made by \<open>JSON.stringify\<close> is represented by the value it was made from:
  \<open>DiagramJSON\<close> is the text of the object \<open>{ nodes, edges, legend }\<close>.
\<close>

datatype json_text =
    NodesJSON "node jsvalue"
  | EdgesJSON "edge jsvalue"
  | LegendJSON "legend_item jsvalue"
  | DiagramJSON "node jsvalue" "edge jsvalue" "legend_item jsvalue"

text \<open>
  What an operation does to the outside: a write to \<open>localStorage\<close>, a download of a blob
  (file name, content, MIME type) or of a data URL (file name, URL), a line on the console,
  an alert.
\<close>

datatype effect =
    SetItem jsstring json_text
  | DownloadBlob jsstring json_text jsstring
  | DownloadUrl jsstring jsstring
  | ConsoleError jsstring exn
  | Alert jsstring

record 'num bounds =
  bounds_x :: 'num
  bounds_y :: 'num
  bounds_width :: 'num
  bounds_height :: 'num

text \<open>
  A value of a style property: a text, or a text made from numbers by a template literal,
  which is represented by the numbers: \<open>Px w\<close> is \<open>`${w}px`\<close> and \<open>TranslatePxScale1 x y\<close>
  is \<open>`translate(${x}px, ${y}px) scale(1)`\<close>. A style maps property names to values.
\<close>

datatype 'num css_value = CssText jsstring | Px 'num | TranslatePxScale1 'num 'num

type_synonym 'num css_style = "jsstring \<Rightarrow> 'num css_value option"

text \<open>
  The copy of the document that the renderer hands to \<open>onClone\<close>, as far as \<open>onClone\<close>
  looks at it: the element of class \<open>react-flow__viewport\<close> and the element of class
  \<open>react-flow__panel\<close>, each with its style if \<open>querySelector\<close> finds one, and the first
  child of the panel, which is an element with a style or a node of another kind (a text,
  a comment) without one.
\<close>

datatype 'num dom_node = ElementNode "'num css_style" | OtherNode

record 'num panel_element =
  panel_style :: "'num css_style"
  firstChild :: "'num dom_node option"

record 'num cloned_document =
  clone_viewport :: "'num css_style option"
  clone_panel :: "'num panel_element option"

text \<open>
  The options that \<open>exportDiagram\<close> gives to the image renderer. \<open>style\<close> has the two
  properties \<open>width\<close> and \<open>height\<close>. \<open>onClone\<close> changes the copy in place; here it returns
  the changed copy, or the error it threw. \<open>filter_node\<close> is the option \<open>filter\<close>, applied
  to the class list of a node, if the node has one.
\<close>

record 'num export_options =
  backgroundColor :: jsstring
  width :: 'num
  height :: 'num
  style_width :: "'num css_value"
  style_height :: "'num css_value"
  onClone :: "'num cloned_document \<Rightarrow> exn + 'num cloned_document"
  filter_node :: "jsstring list option \<Rightarrow> bool"

text \<open>
  What the component takes from the browser and from its libraries: \<open>localStorage.getItem\<close>,
  \<open>JSON.parse\<close> (at the type of each of the three containers), the functions of the
  canvas library, the canvas element found by \<open>document.querySelector('.react-flow')\<close>, and
  the two image renderers. A function that may throw, or a promise that may be rejected,
  returns \<open>Inl\<close>. The arithmetic of the numbers of the export is taken from the platform
  as it is: the number that a literal denotes, \<open>+\<close>, \<open>*\<close> and the unary \<open>-\<close>.
\<close>

record ('nc, 'ec, 'el, 'num) platform =
  getItem :: "jsstring \<Rightarrow> exn + jsstring option"
  parse_nodes :: "jsstring \<Rightarrow> exn + node jsvalue"
  parse_edges :: "jsstring \<Rightarrow> exn + edge jsvalue"
  parse_legend :: "jsstring \<Rightarrow> exn + legend_item jsvalue"
  applyNodeChanges :: "'nc \<Rightarrow> node jsvalue \<Rightarrow> exn + node jsvalue"
  applyEdgeChanges :: "'ec \<Rightarrow> edge jsvalue \<Rightarrow> exn + edge jsvalue"
  addEdge :: "edge \<Rightarrow> edge jsvalue \<Rightarrow> exn + edge jsvalue"
  getNodesBounds :: "node jsvalue \<Rightarrow> exn + 'num bounds"
  react_flow_element :: "'el option"
  toSvg :: "'el \<Rightarrow> 'num export_options \<Rightarrow> exn + jsstring"
  toPng :: "'el \<Rightarrow> 'num export_options \<Rightarrow> exn + jsstring"
  num_lit :: "nat \<Rightarrow> 'num"
  num_add :: "'num \<Rightarrow> 'num \<Rightarrow> 'num"
  num_mul :: "'num \<Rightarrow> 'num \<Rightarrow> 'num"
  num_neg :: "'num \<Rightarrow> 'num"

section \<open>The state of \<open>FlowApp\<close>\<close>

record state =
  nodes :: "node jsvalue"
  edges :: "edge jsvalue"
  tableName :: jsstring
  schemaText :: jsstring
  selectedColor :: jsstring
  relType :: jsstring
  edgeToDelete :: jsstring
  editingNodeId :: "jsstring option"
  showExportToast :: bool
  legend :: "legend_item jsvalue"
  renamingId :: "jsstring option"
  effects :: "effect list"

definition emit :: "effect \<Rightarrow> state \<Rightarrow> state" where
  "emit e s = s\<lparr>effects := effects s @ [e]\<rparr>"

text \<open>An operation that raised gives no next state.\<close>

definition and_then :: "exn + 'a \<Rightarrow> ('a \<Rightarrow> exn + 'b) \<Rightarrow> exn + 'b" where
  "and_then r f = (case r of Inl e \<Rightarrow> Inl e | Inr v \<Rightarrow> f v)"

subsection \<open>Initial state (lines 31 to 60)\<close>

text \<open>
  The initialiser of \<open>nodes\<close> and of \<open>edges\<close>: \<open>saved ? JSON.parse(saved) : []\<close>, then
  \<open>Array.isArray(parsed) ? parsed : []\<close>, and \<open>[]\<close> when anything in between throws.
  \<open>null\<close> and the empty string are the values of \<open>saved\<close> that count as false.
\<close>

definition load_array ::
  "(jsstring \<Rightarrow> exn + jsstring option) \<Rightarrow> (jsstring \<Rightarrow> exn + 'a jsvalue) \<Rightarrow> jsstring
     \<Rightarrow> 'a jsvalue" where
  "load_array get parse key =
     (case and_then (get key)
             (\<lambda>saved. case saved of
                 None \<Rightarrow> Inr (Array [])
               | Some text \<Rightarrow> if text = [] then Inr (Array []) else parse text) of
        Inl e \<Rightarrow> Array []
      | Inr parsed \<Rightarrow> if isArray parsed then parsed else Array [])"

text \<open>The initialiser of \<open>legend\<close> has no \<open>Array.isArray\<close>.\<close>

definition load_legend ::
  "(jsstring \<Rightarrow> exn + jsstring option) \<Rightarrow> (jsstring \<Rightarrow> exn + legend_item jsvalue)
     \<Rightarrow> legend_item jsvalue" where
  "load_legend get parse =
     (case and_then (get (js ''legend''))
             (\<lambda>saved. case saved of
                 None \<Rightarrow> Inr (Array INITIAL_LEGEND)
               | Some text \<Rightarrow> if text = [] then Inr (Array INITIAL_LEGEND) else parse text) of
        Inl e \<Rightarrow> Array INITIAL_LEGEND
      | Inr parsed \<Rightarrow> parsed)"

definition initial_state :: "('nc, 'ec, 'el, 'num) platform \<Rightarrow> state" where
  "initial_state pf =
     \<lparr>nodes = load_array (getItem pf) (parse_nodes pf) (js ''nodes''),
      edges = load_array (getItem pf) (parse_edges pf) (js ''edges''),
      tableName = [],
      schemaText = [],
      selectedColor = js ''#fbbf24'',
      relType = js ''1:N'',
      edgeToDelete = [],
      editingNodeId = None,
      showExportToast = False,
      legend = load_legend (getItem pf) (parse_legend pf),
      renamingId = None,
      effects = []\<rparr>"

subsection \<open>Legend (lines 65 to 71)\<close>

definition handleRenameLegend :: "jsstring \<Rightarrow> jsstring \<Rightarrow> state \<Rightarrow> exn + state" where
  "handleRenameLegend i newName s =
     and_then
       (js_map (\<lambda>item. if legend_id item = i then item\<lparr>legend_name := newName\<rparr> else item)
          (legend s))
       (\<lambda>updated. Inr (emit (SetItem (js ''legend'') (LegendJSON updated))
                          (s\<lparr>legend := updated\<rparr>)))"

subsection \<open>Deleting and editing a node (lines 73 to 90)\<close>

definition onDeleteNode :: "jsstring \<Rightarrow> state \<Rightarrow> exn + state" where
  "onDeleteNode i s =
     and_then (js_filter (\<lambda>n. node_id n \<noteq> i) (nodes s))
       (\<lambda>nds. and_then (js_filter (\<lambda>e. source e \<noteq> i \<and> target e \<noteq> i) (edges s))
          (\<lambda>eds. Inr (s\<lparr>nodes := nds, edges := eds\<rparr>)))"

text \<open>The text of one column in the form: the name and the tag of its first set flag.\<close>

definition column_text :: "column \<Rightarrow> jsstring" where
  "column_text c =
     name c @ (if isPK c then js '' (pk)''
               else if isFK c then js '' (fk)''
               else if isCK c then js '' (ck)''
               else [])"

text \<open>
  \<open>data.columns?.map(...).join(', ')\<close> followed by \<open>text || ''\<close>: without columns the text is
  \<open>undefined\<close>, which \<open>||\<close> turns into the empty string.
\<close>

definition columns_text :: "column list option \<Rightarrow> jsstring" where
  "columns_text cols =
     (case cols of None \<Rightarrow> [] | Some cs \<Rightarrow> join (js '', '') (map column_text cs))"

definition onStartEdit :: "jsstring \<Rightarrow> node_data \<Rightarrow> state \<Rightarrow> state" where
  "onStartEdit i d s =
     s\<lparr>editingNodeId := Some i,
       tableName := label d,
       schemaText := columns_text (columns d),
       selectedColor := color d\<rparr>"

subsection \<open>Effects after rendering (lines 92 to 108)\<close>

definition persist :: "state \<Rightarrow> state" where
  "persist s =
     emit (SetItem (js ''edges'') (EdgesJSON (edges s)))
       (emit (SetItem (js ''nodes'') (NodesJSON (nodes s))) s)"

definition attach_handlers :: "state \<Rightarrow> exn + state" where
  "attach_handlers s =
     and_then
       (js_map (\<lambda>n. n\<lparr>data := (data n)\<lparr>onDelete := Some OnDeleteNode,
                                        onEdit := Some OnStartEdit\<rparr>\<rparr>) (nodes s))
       (\<lambda>nds. Inr (s\<lparr>nodes := nds\<rparr>))"

subsection \<open>Changes reported by the canvas (lines 110 to 117)\<close>

definition onNodesChange :: "('nc, 'ec, 'el, 'num) platform \<Rightarrow> 'nc \<Rightarrow> state \<Rightarrow> exn + state" where
  "onNodesChange pf changes s =
     and_then (applyNodeChanges pf changes (nodes s)) (\<lambda>nds. Inr (s\<lparr>nodes := nds\<rparr>))"

definition onEdgesChange :: "('nc, 'ec, 'el, 'num) platform \<Rightarrow> 'ec \<Rightarrow> state \<Rightarrow> exn + state" where
  "onEdgesChange pf changes s =
     and_then (applyEdgeChanges pf changes (edges s)) (\<lambda>eds. Inr (s\<lparr>edges := eds\<rparr>))"

subsection \<open>Adding and updating a table (lines 119 to 153)\<close>

definition newNodeData :: "state \<Rightarrow> node_data" where
  "newNodeData s =
     \<lparr>label = tableName s,
      columns = Some (parse_columns (schemaText s)),
      color = selectedColor s,
      onDelete = Some OnDeleteNode,
      onEdit = Some OnStartEdit\<rparr>"

definition newNode :: "nat \<Rightarrow> state \<Rightarrow> node" where
  "newNode now s =
     \<lparr>node_id = js ''node_'' @ decimal now,
      node_type = js ''tableNode'',
      position = \<lparr>pos_x = 350, pos_y = 150\<rparr>,
      data = newNodeData s,
      node_others = []\<rparr>"

text \<open>\<open>if (editingNodeId)\<close>: \<open>null\<close> and the empty string count as false.\<close>

fun editing :: "jsstring option \<Rightarrow> bool" where
  "editing None = False"
| "editing (Some i) = (i \<noteq> [])"

definition addTable :: "nat \<Rightarrow> state \<Rightarrow> exn + state" where
  "addTable now s =
     (if tableName s = [] then Inr s
      else if editing (editingNodeId s) then
        and_then
          (js_map (\<lambda>n. if Some (node_id n) = editingNodeId s
                        then n\<lparr>data := newNodeData s\<rparr> else n) (nodes s))
          (\<lambda>nds. Inr (s\<lparr>nodes := nds, editingNodeId := None,
                          tableName := [], schemaText := []\<rparr>))
      else
        and_then (js_concat (nodes s) (newNode now s))
          (\<lambda>nds. Inr (s\<lparr>nodes := nds, tableName := [], schemaText := []\<rparr>)))"

subsection \<open>Connecting two nodes (lines 155 to 185)\<close>

text \<open>The pair \<open>(markerStart, markerEnd)\<close> that \<open>onConnect\<close> chooses for a relationship type.\<close>

definition markers :: "jsstring \<Rightarrow> marker option \<times> marker option" where
  "markers rel =
     (if rel = js ''1:1'' then
        (None, Some (MarkerObject \<lparr>marker_type = ArrowClosed, marker_color = js ''#3b82f6'',
                                    marker_width = 15, marker_height = 15\<rparr>))
      else if rel = js ''1:N'' then (None, Some (MarkerId (js ''many-side'')))
      else if rel = js ''N:M'' then
        (Some (MarkerId (js ''many-side'')), Some (MarkerId (js ''many-side'')))
      else (None, None))"

definition newEdge :: "jsstring \<Rightarrow> nat \<Rightarrow> connection \<Rightarrow> edge" where
  "newEdge rel now params =
     \<lparr>source = source params,
      target = target params,
      sourceHandle = sourceHandle params,
      targetHandle = targetHandle params,
      edge_id = js ''e-'' @ decimal now,
      edge_type = js ''smoothstep'',
      style = \<lparr>strokeWidth = 3 / 2, stroke = js ''#3b82f6''\<rparr>,
      markerStart = fst (markers rel),
      markerEnd = snd (markers rel)\<rparr>"

definition onConnect ::
  "('nc, 'ec, 'el, 'num) platform \<Rightarrow> nat \<Rightarrow> connection \<Rightarrow> state \<Rightarrow> exn + state" where
  "onConnect pf now params s =
     and_then (addEdge pf (newEdge (relType s) now params) (edges s))
       (\<lambda>eds. Inr (s\<lparr>edges := eds\<rparr>))"

subsection \<open>Deleting the selected edge (line 381)\<close>

definition deleteSelectedEdge :: "state \<Rightarrow> exn + state" where
  "deleteSelectedEdge s =
     and_then (js_filter (\<lambda>e. edge_id e \<noteq> edgeToDelete s) (edges s))
       (\<lambda>eds. Inr (s\<lparr>edges := eds, edgeToDelete := []\<rparr>))"

subsection \<open>Export (lines 192 to 273)\<close>

definition legendBuffer :: "('nc, 'ec, 'el, 'num) platform \<Rightarrow> 'num" where
  "legendBuffer pf = num_lit pf 300"

definition margin :: "('nc, 'ec, 'el, 'num) platform \<Rightarrow> 'num" where
  "margin pf = num_lit pf 100"

text \<open>\<open>bounds.width + legendBuffer + (margin * 2)\<close> and \<open>bounds.height + (margin * 2)\<close>.\<close>

definition exportWidth :: "('nc, 'ec, 'el, 'num) platform \<Rightarrow> 'num bounds \<Rightarrow> 'num" where
  "exportWidth pf b =
     num_add pf (num_add pf (bounds_width b) (legendBuffer pf))
       (num_mul pf (margin pf) (num_lit pf 2))"

definition exportHeight :: "('nc, 'ec, 'el, 'num) platform \<Rightarrow> 'num bounds \<Rightarrow> 'num" where
  "exportHeight pf b = num_add pf (bounds_height b) (num_mul pf (margin pf) (num_lit pf 2))"

text \<open>The assignments of \<open>onClone\<close> to the style of the panel and of its first child.\<close>

definition place_panel :: "'num css_style \<Rightarrow> 'num css_style" where
  "place_panel st =
     st(js ''position'' \<mapsto> CssText (js ''absolute''),
        js ''left'' \<mapsto> CssText (js ''40px''),
        js ''top'' \<mapsto> CssText (js ''40px''),
        js ''margin'' \<mapsto> CssText (js ''0''),
        js ''display'' \<mapsto> CssText (js ''block''),
        js ''visibility'' \<mapsto> CssText (js ''visible''),
        js ''zIndex'' \<mapsto> CssText (js ''1000''))"

definition flatten_child :: "'num css_style \<Rightarrow> 'num css_style" where
  "flatten_child st =
     st(js ''boxShadow'' \<mapsto> CssText (js ''none''),
        js ''border'' \<mapsto> CssText (js ''1px solid #e2e8f0''))"

text \<open>
  \<open>if (panel) { ... if (panel.firstChild) { ... } }\<close>: a first child without a style makes
  the assignment to \<open>panel.firstChild.style.boxShadow\<close> raise a TypeError.
\<close>

definition clone_place_panel ::
  "'num panel_element option \<Rightarrow> exn + 'num panel_element option" where
  "clone_place_panel found =
     (case found of
        None \<Rightarrow> Inr None
      | Some p \<Rightarrow>
          (case firstChild p of
             None \<Rightarrow> Inr (Some (p\<lparr>panel_style := place_panel (panel_style p)\<rparr>))
           | Some (ElementNode st) \<Rightarrow>
               Inr (Some (p\<lparr>panel_style := place_panel (panel_style p),
                            firstChild := Some (ElementNode (flatten_child st))\<rparr>))
           | Some OtherNode \<Rightarrow> Inl TypeError))"

text \<open>
  \<open>if (viewport) { ... }\<close> with \<open>x = -bounds.x + legendBuffer\<close> and
  \<open>y = -bounds.y + margin\<close>.
\<close>

definition clone_move_viewport ::
  "('nc, 'ec, 'el, 'num) platform \<Rightarrow> 'num bounds \<Rightarrow> 'num css_style option
     \<Rightarrow> 'num css_style option" where
  "clone_move_viewport pf b found =
     (case found of
        None \<Rightarrow> None
      | Some st \<Rightarrow>
          Some (st(js ''transform'' \<mapsto>
                  TranslatePxScale1 (num_add pf (num_neg pf (bounds_x b)) (legendBuffer pf))
                                    (num_add pf (num_neg pf (bounds_y b)) (margin pf)))))"

definition export_onClone ::
  "('nc, 'ec, 'el, 'num) platform \<Rightarrow> 'num bounds \<Rightarrow> 'num cloned_document
     \<Rightarrow> exn + 'num cloned_document" where
  "export_onClone pf b clonedDoc =
     and_then (clone_place_panel (clone_panel clonedDoc))
       (\<lambda>p. Inr (clonedDoc\<lparr>clone_panel := p,
                     clone_viewport := clone_move_viewport pf b (clone_viewport clonedDoc)\<rparr>))"

text \<open>
  \<open>!exclude.some(cls => node.classList?.contains(cls))\<close>: a node without a class list is
  kept.
\<close>

definition export_filter :: "jsstring list option \<Rightarrow> bool" where
  "export_filter classList =
     (case classList of
        None \<Rightarrow> True
      | Some classes \<Rightarrow>
          \<not> list_ex (\<lambda>cls. cls \<in> set classes)
                [js ''react-flow__controls'', js ''react-flow__attribution''])"

definition export_options ::
  "('nc, 'ec, 'el, 'num) platform \<Rightarrow> 'num bounds \<Rightarrow> 'num export_options" where
  "export_options pf b =
     \<lparr>backgroundColor = js ''#f8fafc'',
      width = exportWidth pf b,
      height = exportHeight pf b,
      style_width = Px (exportWidth pf b),
      style_height = Px (exportHeight pf b),
      onClone = export_onClone pf b,
      filter_node = export_filter\<rparr>"

text \<open>The body of the \<open>try\<close> up to the data URL: the bounds, then one of the two renderers.\<close>

definition render ::
  "('nc, 'ec, 'el, 'num) platform \<Rightarrow> jsstring \<Rightarrow> 'el \<Rightarrow> node jsvalue \<Rightarrow> exn + jsstring" where
  "render pf format element nds =
     and_then (getNodesBounds pf nds)
       (\<lambda>b. if format = js ''svg'' then toSvg pf element (export_options pf b)
             else toPng pf element (export_options pf b))"

definition exportDiagram ::
  "('nc, 'ec, 'el, 'num) platform \<Rightarrow> jsstring \<Rightarrow> nat \<Rightarrow> state \<Rightarrow> exn + state" where
  "exportDiagram pf format now s =
     (if format = js ''json'' then
        Inr (emit (DownloadBlob (js ''database_model_'' @ decimal now @ js ''.json'')
                     (DiagramJSON (nodes s) (edges s) (legend s)) (js ''application/json'')) s)
      else
        (case react_flow_element pf of
           None \<Rightarrow> Inr s
         | Some element \<Rightarrow>
             and_then (length_is_zero (nodes s))
               (\<lambda>empty.
                  if empty then Inr s
                  else
                    (case render pf format element (nodes s) of
                       Inr dataUrl \<Rightarrow>
                         Inr (emit (DownloadUrl (js ''db_model_'' @ decimal now @ js ''.'' @ format)
                                      dataUrl) s)
                     | Inl err \<Rightarrow>
                         Inr (emit (Alert (js ''Export failed. Please try again.''))
                                (emit (ConsoleError (js ''Export Error:'') err) s))))))"

subsection \<open>The steps of the application\<close>

text \<open>
  Every way in which the component changes its state: the handlers above, the two effects,
  and the form fields, which set one state variable each.
\<close>

datatype ('nc, 'ec) action =
    AddTable nat
  | Connect nat connection
  | DeleteNode jsstring
  | DeleteSelectedEdge
  | NodesChange 'nc
  | EdgesChange 'ec
  | StartEdit jsstring node_data
  | RenameLegend jsstring jsstring
  | AttachHandlers
  | Persist
  | Export jsstring nat
  | SetTableName jsstring
  | SetSchemaText jsstring
  | SetSelectedColor jsstring
  | SetRelType jsstring
  | SetEdgeToDelete jsstring
  | SetRenamingId "jsstring option"
  | SetShowExportToast bool

fun perform :: "('nc, 'ec, 'el, 'num) platform \<Rightarrow> ('nc, 'ec) action \<Rightarrow> state \<Rightarrow> exn + state" where
  "perform pf (AddTable now) s = addTable now s"
| "perform pf (Connect now params) s = onConnect pf now params s"
| "perform pf (DeleteNode i) s = onDeleteNode i s"
| "perform pf DeleteSelectedEdge s = deleteSelectedEdge s"
| "perform pf (NodesChange changes) s = onNodesChange pf changes s"
| "perform pf (EdgesChange changes) s = onEdgesChange pf changes s"
| "perform pf (StartEdit i d) s = Inr (onStartEdit i d s)"
| "perform pf (RenameLegend i newName) s = handleRenameLegend i newName s"
| "perform pf AttachHandlers s = attach_handlers s"
| "perform pf Persist s = Inr (persist s)"
| "perform pf (Export format now) s = exportDiagram pf format now s"
| "perform pf (SetTableName v) s = Inr (s\<lparr>tableName := v\<rparr>)"
| "perform pf (SetSchemaText v) s = Inr (s\<lparr>schemaText := v\<rparr>)"
| "perform pf (SetSelectedColor v) s = Inr (s\<lparr>selectedColor := v\<rparr>)"
| "perform pf (SetRelType v) s = Inr (s\<lparr>relType := v\<rparr>)"
| "perform pf (SetEdgeToDelete v) s = Inr (s\<lparr>edgeToDelete := v\<rparr>)"
| "perform pf (SetRenamingId v) s = Inr (s\<lparr>renamingId := v\<rparr>)"
| "perform pf (SetShowExportToast v) s = Inr (s\<lparr>showExportToast := v\<rparr>)"

inductive reachable :: "('nc, 'ec, 'el, 'num) platform \<Rightarrow> state \<Rightarrow> bool"
  for pf :: "('nc, 'ec, 'el, 'num) platform" where
  start: "reachable pf (initial_state pf)"
| step: "reachable pf s \<Longrightarrow> perform pf a s = Inr s' \<Longrightarrow> reachable pf s'"

text \<open>
  What the canvas library promises of \<open>applyNodeChanges\<close>, \<open>applyEdgeChanges\<close> and
  \<open>addEdge\<close>: given an array, each returns an array, unless it throws.
\<close>

definition library_returns_arrays :: "('nc, 'ec, 'el, 'num) platform \<Rightarrow> bool" where
  "library_returns_arrays pf =
     ((\<forall>c xs r. applyNodeChanges pf c (Array xs) = Inr r \<longrightarrow> isArray r) \<and>
      (\<forall>c xs r. applyEdgeChanges pf c (Array xs) = Inr r \<longrightarrow> isArray r) \<and>
      (\<forall>e xs r. addEdge pf e (Array xs) = Inr r \<longrightarrow> isArray r))"

section \<open>A small diagram\<close>

text \<open>
  Two tables and one relationship, and a platform with empty storage whose canvas library
  adds an edge at the end of the array and returns a fixed rectangle as the bounds of the
  nodes. Its numbers are rationals with their exact arithmetic, which is the arithmetic of
  the doubles on the whole numbers that occur here.
\<close>

definition users_node :: node where
  "users_node =
     \<lparr>node_id = js ''node_1'',
      node_type = js ''tableNode'',
      position = \<lparr>pos_x = 350, pos_y = 150\<rparr>,
      data = \<lparr>label = js ''users'',
              columns = Some [\<lparr>name = js ''id'', isPK = True, isFK = False, isCK = False\<rparr>],
              color = js ''#fbbf24'',
              onDelete = Some OnDeleteNode,
              onEdit = Some OnStartEdit\<rparr>,
      node_others = []\<rparr>"

definition orders_node :: node where
  "orders_node =
     \<lparr>node_id = js ''node_2'',
      node_type = js ''tableNode'',
      position = \<lparr>pos_x = 700, pos_y = 150\<rparr>,
      data = \<lparr>label = js ''orders'',
              columns = Some [\<lparr>name = js ''id'', isPK = True, isFK = False, isCK = False\<rparr>,
                              \<lparr>name = js ''user_id'', isPK = False, isFK = True, isCK = False\<rparr>],
              color = js ''#94a3b8'',
              onDelete = Some OnDeleteNode,
              onEdit = Some OnStartEdit\<rparr>,
      node_others = []\<rparr>"

definition users_orders :: connection where
  "users_orders =
     \<lparr>source = js ''node_1'', target = js ''node_2'',
      sourceHandle = Some (js ''right-source''), targetHandle = Some (js ''left-target'')\<rparr>"

definition demo_platform :: "(unit, unit, unit, rat) platform" where
  "demo_platform =
     \<lparr>getItem = (\<lambda>key. Inr None),
      parse_nodes = (\<lambda>text. Inl SyntaxError),
      parse_edges = (\<lambda>text. Inl SyntaxError),
      parse_legend = (\<lambda>text. Inl SyntaxError),
      applyNodeChanges = (\<lambda>changes nds. Inr nds),
      applyEdgeChanges = (\<lambda>changes eds. Inr eds),
      addEdge = (\<lambda>e eds. js_concat eds e),
      getNodesBounds =
        (\<lambda>nds. Inr \<lparr>bounds_x = 350, bounds_y = 150, bounds_width = 570, bounds_height = 120\<rparr>),
      react_flow_element = Some (),
      toSvg = (\<lambda>element options. Inr (js ''data:image/svg+xml;charset=utf-8,'')),
      toPng = (\<lambda>element options. Inr (js ''data:image/png;base64,'')),
      num_lit = of_nat,
      num_add = (+),
      num_mul = (*),
      num_neg = uminus\<rparr>"

definition demo_state :: state where
  "demo_state =
     \<lparr>nodes = Array [users_node, orders_node],
      edges = Array [newEdge (js ''1:N'') 1700000000000 users_orders],
      tableName = js ''orders'',
      schemaText = js ''id (pk), user_id (fk)'',
      selectedColor = js ''#94a3b8'',
      relType = js ''1:N'',
      edgeToDelete = [],
      editingNodeId = None,
      showExportToast = False,
      legend = Array INITIAL_LEGEND,
      renamingId = None,
      effects = []\<rparr>"

text \<open>
  A platform whose storage holds a text under every key; parsing gives the two tables for
  the nodes and an object, which is not an array, for the edges.
\<close>

definition restoring_platform :: "(unit, unit, unit, rat) platform" where
  "restoring_platform =
     demo_platform
       \<lparr>getItem := (\<lambda>key. Inr (Some (js ''stored''))),
        parse_nodes := (\<lambda>text. Inr (Array [users_node, orders_node])),
        parse_edges := (\<lambda>text. Inr (Object []))\<rparr>"

text \<open>Column lists: one with a tag in capitals inside a name, one as the form shows it.\<close>

definition upper_case_tag_column :: column where
  "upper_case_tag_column = \<lparr>name = js ''a(PK)'', isPK = False, isFK = False, isCK = False\<rparr>"

definition demo_columns_list :: "column list" where
  "demo_columns_list =
     [\<lparr>name = js ''id'', isPK = True, isFK = False, isCK = False\<rparr>,
      \<lparr>name = js ''user_id'', isPK = False, isFK = True, isCK = False\<rparr>,
      \<lparr>name = js ''code'', isPK = False, isFK = False, isCK = True\<rparr>,
      \<lparr>name = js ''created at'', isPK = False, isFK = False, isCK = False\<rparr>]"


text \<open>
  The form while the table \<open>users\<close> is edited and the name field has been emptied, and
  the form after the edited table was deleted: \<open>onDeleteNode\<close> leaves \<open>editingNodeId\<close> as
  it is.
\<close>

definition editing_without_name :: state where
  "editing_without_name =
     demo_state\<lparr>editingNodeId := Some (js ''node_1''), tableName := []\<rparr>"

definition editing_deleted_node :: state where
  "editing_deleted_node =
     (onStartEdit (js ''node_1'') (data users_node) demo_state)
       \<lparr>nodes := Array [orders_node], edges := Array []\<rparr>"

section \<open>The column parser\<close>

subsection \<open>Splitting and joining\<close>

lemma split_on_not_Nil: "split_on d s \<noteq> []"
  by (induction s) (auto split: list.splits)

lemma join_Cons: "ps \<noteq> [] \<Longrightarrow> join sep (p # ps) = p @ sep @ join sep ps"
  by (cases ps) auto

lemma join_split_on: "join [d] (split_on d s) = s"
proof (induction s)
  case Nil
  show ?case by simp
next
  case (Cons c cs)
  show ?case
  proof (cases "c = d")
    case True
    with Cons show ?thesis by (simp add: join_Cons split_on_not_Nil)
  next
    case False
    obtain p ps where sp: "split_on d cs = p # ps"
      using split_on_not_Nil [of d cs] by (cases "split_on d cs") auto
    have "join [d] ((c # p) # ps) = c # join [d] (p # ps)"
      by (cases ps) auto
    with False sp Cons show ?thesis by simp
  qed
qed

lemma split_on_no_sep: "p \<in> set (split_on d s) \<Longrightarrow> d \<notin> set p"
  by (induction s arbitrary: p) (auto split: if_splits list.splits)

lemma split_on_no_sep_id: "d \<notin> set p \<Longrightarrow> split_on d p = [p]"
  by (induction p) auto

lemma split_on_append: "d \<notin> set p \<Longrightarrow> split_on d (p @ d # rest) = p # split_on d rest"
  by (induction p) auto

lemma split_on_joined:
  "ps \<noteq> [] \<Longrightarrow> \<forall>p\<in>set ps. d \<notin> set p \<Longrightarrow> split_on d (join [d] ps) = ps"
proof (induction ps)
  case Nil
  then show ?case by simp
next
  case (Cons p ps)
  then have p: "d \<notin> set p" by simp
  show ?case
  proof (cases ps)
    case Nil
    with p show ?thesis by (simp add: split_on_no_sep_id)
  next
    case (Cons q qs)
    with Cons.IH Cons.prems have "split_on d (join [d] ps) = ps" by simp
    moreover from Cons have "join [d] (p # ps) = p @ d # join [d] ps" by simp
    ultimately show ?thesis by (simp only: split_on_append [OF p])
  qed
qed

subsection \<open>Trimming\<close>

lemma dropWhile_trim:
  "dropWhile is_ws s = trim s @ rev (takeWhile is_ws (rev (dropWhile is_ws s)))"
proof -
  let ?t = "dropWhile is_ws s"
  have "?t = rev (takeWhile is_ws (rev ?t) @ dropWhile is_ws (rev ?t))"
    by (simp only: takeWhile_dropWhile_id rev_rev_ident)
  also have "\<dots> = trim s @ rev (takeWhile is_ws (rev ?t))"
    by (simp only: rev_append trim_def)
  finally show ?thesis .
qed

lemma trim_decomp:
  "s = takeWhile is_ws s @ trim s @ rev (takeWhile is_ws (rev (dropWhile is_ws s)))"
proof -
  have "s = takeWhile is_ws s @ dropWhile is_ws s"
    by (simp only: takeWhile_dropWhile_id)
  also have "dropWhile is_ws s = trim s @ rev (takeWhile is_ws (rev (dropWhile is_ws s)))"
    by (rule dropWhile_trim)
  finally show ?thesis .
qed

lemma trim_last: "trim s \<noteq> [] \<Longrightarrow> \<not> is_ws (last (trim s))"
  by (simp add: trim_def last_rev hd_dropWhile)

lemma trim_hd:
  assumes "trim s \<noteq> []"
  shows "\<not> is_ws (hd (trim s))"
proof -
  let ?t = "dropWhile is_ws s"
  have "hd ?t = hd (trim s @ rev (takeWhile is_ws (rev ?t)))"
    by (rule arg_cong [OF dropWhile_trim])
  also have "\<dots> = hd (trim s)" using assms by (rule hd_append2)
  finally have "hd ?t = hd (trim s)" .
  moreover have "?t \<noteq> []"
  proof
    assume e: "?t = []"
    have "trim s = rev (dropWhile is_ws (rev ?t))" by (simp only: trim_def)
    also have "\<dots> = []" unfolding e by simp
    finally show False using assms by simp
  qed
  ultimately show ?thesis using hd_dropWhile [of is_ws s] by simp
qed

lemma trim_trimmed_of: "trimmed_of (trim s) s"
  unfolding trimmed_of_def
proof (intro exI conjI)
  show "s = takeWhile is_ws s @ trim s @ rev (takeWhile is_ws (rev (dropWhile is_ws s)))"
    by (rule trim_decomp)
  show "list_all is_ws (takeWhile is_ws s)"
    by (auto simp: list_all_iff dest: set_takeWhileD)
  show "list_all is_ws (rev (takeWhile is_ws (rev (dropWhile is_ws s))))"
    by (auto simp: list_all_iff dest: set_takeWhileD)
  show "trim s = [] \<or> (\<not> is_ws (hd (trim s)) \<and> \<not> is_ws (last (trim s)))"
    using trim_hd trim_last by blast
qed

subsection \<open>Tags: the tests\<close>

lemma shift_eq: "(c::uchar) + 0x20 = k \<longleftrightarrow> c = k - 0x20"
  by auto

lemma ascii_lower_eq_iff:
  "ascii_lower a = LPAREN \<longleftrightarrow> a = LPAREN"
  "ascii_lower a = RPAREN \<longleftrightarrow> a = RPAREN"
  "ascii_lower a = LETTER_p \<longleftrightarrow> ci_eq LETTER_p a"
  "ascii_lower a = LETTER_f \<longleftrightarrow> ci_eq LETTER_f a"
  "ascii_lower a = LETTER_c \<longleftrightarrow> ci_eq LETTER_c a"
  "ascii_lower a = LETTER_k \<longleftrightarrow> ci_eq LETTER_k a"
  unfolding ascii_lower_def LPAREN_def RPAREN_def LETTER_p_def LETTER_f_def LETTER_c_def LETTER_k_def ci_eq_def
  by (auto simp: shift_eq)

lemma ascii_lower_eq_iff':
  "LPAREN = ascii_lower a \<longleftrightarrow> a = LPAREN"
  "RPAREN = ascii_lower a \<longleftrightarrow> a = RPAREN"
  "LETTER_p = ascii_lower a \<longleftrightarrow> ci_eq LETTER_p a"
  "LETTER_f = ascii_lower a \<longleftrightarrow> ci_eq LETTER_f a"
  "LETTER_c = ascii_lower a \<longleftrightarrow> ci_eq LETTER_c a"
  "LETTER_k = ascii_lower a \<longleftrightarrow> ci_eq LETTER_k a"
  by (rule trans [OF eq_commute ascii_lower_eq_iff(1)],
      rule trans [OF eq_commute ascii_lower_eq_iff(2)],
      rule trans [OF eq_commute ascii_lower_eq_iff(3)],
      rule trans [OF eq_commute ascii_lower_eq_iff(4)],
      rule trans [OF eq_commute ascii_lower_eq_iff(5)],
      rule trans [OF eq_commute ascii_lower_eq_iff(6)])

lemma prefix_tag_text:
  "l \<in> {LETTER_p, LETTER_f, LETTER_c} \<Longrightarrow>
   prefix (tag_text l) (map ascii_lower (a # b # c # d # rest)) \<longleftrightarrow> match_tag l a b c d"
  by (auto simp: tag_text_def match_tag_def ascii_lower_eq_iff')

lemma regex_test_contains:
  "l \<in> {LETTER_p, LETTER_f, LETTER_c} \<Longrightarrow> regex_test l s \<longleftrightarrow> contains_tag l s"
  unfolding contains_tag_def
proof (induction l s rule: regex_test.induct)
  case (1 l a b c d rest)
  have "sublist (tag_text l) (map ascii_lower (a # b # c # d # rest)) \<longleftrightarrow>
        prefix (tag_text l) (map ascii_lower (a # b # c # d # rest)) \<or>
        sublist (tag_text l) (map ascii_lower (b # c # d # rest))"
    by (simp add: sublist_Cons_right)
  with 1 show ?case by (simp only: regex_test.simps prefix_tag_text)
qed (auto simp: tag_text_def dest: sublist_length_le)

subsection \<open>Tags: the removal\<close>

lemma tag_at_Suc: "tag_at (x # s) (Suc i) = tag_at s i"
  by (simp add: tag_at_def)

lemma tag_at_0: "tag_at (a # b # c # d # rest) 0 = match_any_tag a b c d"
proof -
  have "tag_at (a # b # c # d # rest) 0 =
        (ascii_lower a = LPAREN \<and>
         (ascii_lower b = LETTER_p \<or> ascii_lower b = LETTER_f \<or> ascii_lower b = LETTER_c) \<and>
         ascii_lower c = LETTER_k \<and> ascii_lower d = RPAREN)"
    unfolding tag_at_def tag_text_def by simp blast
  then show ?thesis
    unfolding match_any_tag_def match_tag_def ascii_lower_eq_iff by blast
qed

lemma tag_at_short: "length s < 4 \<Longrightarrow> \<not> tag_at s i"
proof
  assume len: "length s < 4" and "tag_at s i"
  then obtain l where "take 4 (drop i (map ascii_lower s)) = tag_text l"
    by (auto simp: tag_at_def)
  then have "length (take 4 (drop i (map ascii_lower s))) = length (tag_text l)"
    by simp
  with len show False by (simp add: tag_text_def)
qed

lemma tag_at_LPAREN:
  assumes "tag_at (x # s) 0"
  shows "x = LPAREN"
proof -
  from assms obtain l where e: "take 4 (ascii_lower x # map ascii_lower s) = tag_text l"
    by (auto simp: tag_at_def)
  have "take 4 (ascii_lower x # map ascii_lower s) = ascii_lower x # take 3 (map ascii_lower s)"
    by (simp add: take_Cons')
  with e have "ascii_lower x = LPAREN" by (simp add: tag_text_def)
  then show ?thesis by (simp only: ascii_lower_eq_iff)
qed

lemma ci_eq_not_LPAREN:
  "ci_eq l b \<Longrightarrow> l \<in> {LETTER_p, LETTER_f, LETTER_c, LETTER_k} \<Longrightarrow> b \<noteq> LPAREN"
  unfolding ci_eq_def LPAREN_def LETTER_p_def LETTER_f_def LETTER_c_def LETTER_k_def
  by (elim disjE insertE emptyE; simp)

lemma match_no_overlap:
  assumes "match_any_tag a b c d"
  shows "\<not> tag_at (a # b # c # d # rest) (Suc 0)"
    and "\<not> tag_at (a # b # c # d # rest) (Suc (Suc 0))"
    and "\<not> tag_at (a # b # c # d # rest) (Suc (Suc (Suc 0)))"
proof -
  from assms have b: "b \<noteq> LPAREN" and c: "c \<noteq> LPAREN" and d: "d \<noteq> LPAREN"
    unfolding match_any_tag_def match_tag_def
    by (auto dest: ci_eq_not_LPAREN simp: LPAREN_def RPAREN_def)
  show "\<not> tag_at (a # b # c # d # rest) (Suc 0)"
    using b tag_at_LPAREN [of b "c # d # rest"] by (auto simp: tag_at_Suc)
  show "\<not> tag_at (a # b # c # d # rest) (Suc (Suc 0))"
    using c tag_at_LPAREN [of c "d # rest"] by (auto simp: tag_at_Suc)
  show "\<not> tag_at (a # b # c # d # rest) (Suc (Suc (Suc 0)))"
    using d tag_at_LPAREN [of d "rest"] by (auto simp: tag_at_Suc)
qed

lemma in_tag_0: "in_tag s 0 = tag_at s 0"
  by (simp add: in_tag_def)


lemma in_tag_Suc:
  assumes "\<not> tag_at (x # s) 0"
  shows "in_tag (x # s) (Suc j) = in_tag s j"
proof
  assume "in_tag (x # s) (Suc j)"
  then obtain i where i: "Suc j - 3 \<le> i" "i \<le> Suc j" "tag_at (x # s) i"
    by (auto simp: in_tag_def)
  with assms obtain i' where "i = Suc i'" by (cases i) auto
  with i show "in_tag s j" by (auto simp: in_tag_def tag_at_Suc intro!: bexI [of _ i'])
next
  assume "in_tag s j"
  then obtain i where i: "j - 3 \<le> i" "i \<le> j" "tag_at s i"
    by (auto simp: in_tag_def)
  then show "in_tag (x # s) (Suc j)"
    by (auto simp: in_tag_def tag_at_Suc intro!: bexI [of _ "Suc i"])
qed


lemma in_tag_matched:
  assumes "match_any_tag a b c d" and "j < 4"
  shows "in_tag (a # b # c # d # rest) j"
  using assms by (auto simp: in_tag_def tag_at_0 intro!: bexI [of _ 0])


lemma tag_at_add4: "tag_at (a # b # c # d # rest) (Suc (Suc (Suc (Suc i)))) = tag_at rest i"
  by (simp only: tag_at_Suc)


lemma in_tag_behind_match:
  assumes m: "match_any_tag a b c d"
  shows "in_tag (a # b # c # d # rest) (Suc (Suc (Suc (Suc j)))) = in_tag rest j"
proof
  assume "in_tag (a # b # c # d # rest) (Suc (Suc (Suc (Suc j))))"
  then obtain i where i: "j + 1 \<le> i" "i \<le> j + 4" "tag_at (a # b # c # d # rest) i"
    by (auto simp: in_tag_def)
  have "4 \<le> i"
  proof (rule ccontr)
    assume "\<not> 4 \<le> i"
    with i have "i = Suc 0 \<or> i = Suc (Suc 0) \<or> i = Suc (Suc (Suc 0))" by arith
    with i(3) match_no_overlap [OF m, of rest] show False by auto
  qed
  then have "i = Suc (Suc (Suc (Suc (i - 4))))" by simp
  then obtain i' where i': "i = Suc (Suc (Suc (Suc i')))" ..
  from i(3) have "tag_at rest i'" unfolding i' by (simp only: tag_at_add4)
  moreover from i(1,2) have "j - 3 \<le> i'" "i' \<le> j" unfolding i' by simp_all
  ultimately show "in_tag rest j" unfolding in_tag_def by auto
next
  assume "in_tag rest j"
  then obtain i where i: "j - 3 \<le> i" "i \<le> j" "tag_at rest i"
    by (auto simp: in_tag_def)
  then have "tag_at (a # b # c # d # rest) (Suc (Suc (Suc (Suc i))))"
    by (simp only: tag_at_add4)
  moreover from i(1,2) have "Suc (Suc (Suc (Suc j))) - 3 \<le> Suc (Suc (Suc (Suc i)))"
    "Suc (Suc (Suc (Suc i))) \<le> Suc (Suc (Suc (Suc j)))" by simp_all
  ultimately show "in_tag (a # b # c # d # rest) (Suc (Suc (Suc (Suc j))))"
    unfolding in_tag_def by (meson atLeastAtMost_iff)
qed

lemma not_in_tag_short: "length s < 4 \<Longrightarrow> \<not> in_tag s j"
  by (simp add: in_tag_def tag_at_short)


lemma remove_tags_without_tags: "remove_tags s = without_tags s"
  unfolding without_tags_def
proof (induction s rule: remove_tags.induct)
  case (1 a b c d rest)
  show ?case
  proof (cases "match_any_tag a b c d")
    case True
    have "nths ([a, b, c, d] @ rest) {j. \<not> in_tag (a # b # c # d # rest) j} =
          nths [a, b, c, d] {j. \<not> in_tag (a # b # c # d # rest) j} @
          nths rest {j. \<not> in_tag (a # b # c # d # rest) (Suc (Suc (Suc (Suc j))))}"
      by (simp only: nths_append) simp
    moreover have "nths [a, b, c, d] {j. \<not> in_tag (a # b # c # d # rest) j} = []"
      using in_tag_matched [OF True, of _ rest] by (simp add: nths_Cons)
    ultimately show ?thesis using True 1(1) in_tag_behind_match [OF True, of rest]
      by simp
  next
    case False
    then have n0: "\<not> tag_at (a # b # c # d # rest) 0" by (simp add: tag_at_0)
    then show ?thesis using False 1(2)
      by (simp add: nths_Cons [of a] in_tag_0 in_tag_Suc)
  qed
qed (simp_all add: nths_all not_in_tag_short)

subsection \<open>The parser as the claims describe it\<close>

lemma parse_column_tagged: "parse_column item = tagged_column item"
  by (simp add: parse_column_def tagged_column_def remove_tags_without_tags
      regex_test_contains)

lemmas char_defs = COMMA_def SPACE_def LPAREN_def RPAREN_def LETTER_p_def LETTER_f_def
  LETTER_c_def LETTER_k_def

lemma parse_columns_example:
  "parse_columns (js ''id (PK),  ,user_id(fk) x , a,'') =
     [\<lparr>name = js ''id'', isPK = True, isFK = False, isCK = False\<rparr>,
      \<lparr>name = js ''user_id x'', isPK = False, isFK = True, isCK = False\<rparr>,
      \<lparr>name = js ''a'', isPK = False, isFK = False, isCK = False\<rparr>]"
  by (simp add: parse_columns_def parse_column_def js_def trim_def is_ws_def
      match_tag_def match_any_tag_def ci_eq_def char_defs)

text \<open>
  Claim C1. The schema text is made of pieces without a comma, joined by commas; these
  pieces are what the column parser of \<open>addTable\<close> splits the text into. It trims every
  piece (what is cut off is whitespace, and what is left has none at its ends) and drops
  the pieces that are empty then. Every piece left gives one column, in the order of the
  text: its flags say whether the piece contains \<open>(pk)\<close>, \<open>(fk)\<close>, \<open>(ck)\<close> in any letter
  case, and its name is the piece without the occurrences of the three tags, trimmed.
\<close>

theorem addTable_column_parser:
  "(\<exists>pieces. pieces \<noteq> [] \<and> join [COMMA] pieces = txt \<and> (\<forall>p\<in>set pieces. COMMA \<notin> set p)) \<and>
   (\<forall>pieces. pieces \<noteq> [] \<and> join [COMMA] pieces = txt \<and> (\<forall>p\<in>set pieces. COMMA \<notin> set p)
      \<longrightarrow> parse_columns txt =
             map tagged_column (filter (\<lambda>i. i \<noteq> []) (map trim pieces)) \<and>
           (\<forall>p\<in>set pieces. trimmed_of (trim p) p))"
proof (intro conjI allI impI exI ballI)
  show "split_on COMMA txt \<noteq> []" by (rule split_on_not_Nil)
  show "join [COMMA] (split_on COMMA txt) = txt" by (rule join_split_on)
  show "COMMA \<notin> set p" if "p \<in> set (split_on COMMA txt)" for p
    using that by (rule split_on_no_sep)
next
  fix pieces
  assume "pieces \<noteq> [] \<and> join [COMMA] pieces = txt \<and> (\<forall>p\<in>set pieces. COMMA \<notin> set p)"
  then have "split_on COMMA txt = pieces" using split_on_joined [of pieces COMMA] by blast
  then show "parse_columns txt =
       map tagged_column (filter (\<lambda>i. i \<noteq> []) (map trim pieces))"
    unfolding parse_columns_def by (simp only: parse_column_tagged [abs_def])
next
  fix pieces p
  show "trimmed_of (trim p) p" by (rule trim_trimmed_of)
qed

theorem addTable_column_parser_witness:
  "[js ''id (PK)'', js ''  '', js ''user_id(fk) x '', js '' a'', []] \<noteq> [] \<and>
   join [COMMA] [js ''id (PK)'', js ''  '', js ''user_id(fk) x '', js '' a'', []] =
     js ''id (PK),  ,user_id(fk) x , a,'' \<and>
   list_all (\<lambda>p. COMMA \<notin> set p)
     [js ''id (PK)'', js ''  '', js ''user_id(fk) x '', js '' a'', []] \<and>
   parse_columns (js ''id (PK),  ,user_id(fk) x , a,'') =
     map tagged_column
       (filter (\<lambda>i. i \<noteq> [])
          (map trim [js ''id (PK)'', js ''  '', js ''user_id(fk) x '', js '' a'', []])) \<and>
   parse_columns (js ''id (PK),  ,user_id(fk) x , a,'') =
     [\<lparr>name = js ''id'', isPK = True, isFK = False, isCK = False\<rparr>,
      \<lparr>name = js ''user_id x'', isPK = False, isFK = True, isCK = False\<rparr>,
      \<lparr>name = js ''a'', isPK = False, isFK = False, isCK = False\<rparr>]"
proof -
  let ?pieces = "[js ''id (PK)'', js ''  '', js ''user_id(fk) x '', js '' a'', []]"
  have h: "?pieces \<noteq> []"
    "join [COMMA] ?pieces = js ''id (PK),  ,user_id(fk) x , a,''"
    "\<forall>p\<in>set ?pieces. COMMA \<notin> set p"
    by (simp_all add: js_def COMMA_def)
  from addTable_column_parser [of "js ''id (PK),  ,user_id(fk) x , a,''"] h
  have "parse_columns (js ''id (PK),  ,user_id(fk) x , a,'') =
     map tagged_column (filter (\<lambda>i. i \<noteq> []) (map trim ?pieces))"
    by blast
  with h parse_columns_example show ?thesis by (simp add: list_all_iff)
qed

section \<open>From the columns to the text and back\<close>

subsection \<open>Splitting a joined text\<close>

lemma split_on_join:
  "\<forall>p\<in>set (q # ps). COMMA \<notin> set p \<Longrightarrow>
   split_on COMMA (join [COMMA, SPACE] (q # ps)) = q # map ((#) SPACE) ps"
proof (induction ps arbitrary: q)
  case Nil
  then show ?case by (simp add: split_on_no_sep_id)
next
  case (Cons r rs)
  have ne: "SPACE \<noteq> COMMA" by (simp add: char_defs)
  from Cons.prems have q: "COMMA \<notin> set q" and rest: "\<forall>p\<in>set (r # rs). COMMA \<notin> set p"
    by simp_all
  have "split_on COMMA (join [COMMA, SPACE] (q # r # rs)) =
        split_on COMMA (q @ COMMA # (SPACE # join [COMMA, SPACE] (r # rs)))"
    by simp
  also have "\<dots> = q # split_on COMMA (SPACE # join [COMMA, SPACE] (r # rs))"
    by (rule split_on_append [OF q])
  also have "split_on COMMA (SPACE # join [COMMA, SPACE] (r # rs)) =
             (SPACE # r) # map ((#) SPACE) rs"
    using ne Cons.IH [OF rest] by simp
  finally show ?case by simp
qed

lemma trim_plain:
  assumes "s \<noteq> []" and "\<not> is_ws (hd s)" and "\<not> is_ws (last s)"
  shows "trim s = s"
proof -
  have "dropWhile is_ws s = s" using assms(2) by (simp add: dropWhile_eq_self_iff)
  moreover have "dropWhile is_ws (rev s) = rev s"
    using assms(1,3) by (simp add: dropWhile_eq_self_iff hd_rev)
  ultimately show ?thesis by (simp add: trim_def)
qed

lemma is_ws_SPACE: "is_ws SPACE"
  by (simp add: is_ws_def SPACE_def)

lemma not_ws_RPAREN: "\<not> is_ws RPAREN"
  by (simp add: is_ws_def RPAREN_def)

lemma trim_SPACE: "trim (SPACE # s) = trim s"
  by (simp add: trim_def is_ws_SPACE)

lemma trim_plain_SPACE:
  assumes "s \<noteq> []" and "\<not> is_ws (hd s)" and "\<not> is_ws (last s)"
  shows "trim (s @ [SPACE]) = s"
proof -
  have "dropWhile is_ws (s @ [SPACE]) = s @ [SPACE]"
    using assms(1,2) by (simp add: dropWhile_eq_self_iff)
  moreover have "dropWhile is_ws (rev (s @ [SPACE])) = rev s"
    using assms(1,3) by (simp add: is_ws_SPACE dropWhile_eq_self_iff hd_rev)
  ultimately show ?thesis by (simp add: trim_def)
qed

subsection \<open>A tag behind a name\<close>

lemma sublist_across:
  assumes "x \<notin> set t" and "t \<noteq> []"
  shows "sublist t (u @ x # v) \<longleftrightarrow> sublist t u \<or> sublist t v"
proof
  assume "sublist t (u @ x # v)"
  then consider "sublist t u" | "sublist t (x # v)"
    | t1 t2 where "t = t1 @ t2" "suffix t1 u" "prefix t2 (x # v)"
    unfolding sublist_append by blast
  then show "sublist t u \<or> sublist t v"
  proof cases
    case 1
    then show ?thesis ..
  next
    case 2
    then have "prefix t (x # v) \<or> sublist t v" by (simp add: sublist_Cons_right)
    moreover have "\<not> prefix t (x # v)"
      using assms by (cases t) (auto simp: prefix_Cons)
    ultimately show ?thesis by blast
  next
    case 3
    have "t2 = []"
    proof (cases t2)
      case (Cons y ys)
      with 3(3) have "y = x" by simp
      with Cons 3(1) assms(1) show ?thesis by simp
    qed simp
    with 3 have "suffix t u" by simp
    then show ?thesis by blast
  qed
next
  assume "sublist t u \<or> sublist t v"
  then show "sublist t (u @ x # v)"
    by (auto simp: sublist_append sublist_Cons_right)
qed

lemma sublist_same_length:
  assumes "length xs = length ys"
  shows "sublist xs ys \<longleftrightarrow> xs = ys"
proof
  assume "sublist xs ys"
  then obtain ps ss where e: "ys = ps @ xs @ ss" by (auto simp: sublist_def)
  have "length ys = length ps + length xs + length ss"
    by (subst e) simp
  with assms have "ps = []" "ss = []" by simp_all
  with e show "xs = ys" by simp
qed simp

lemma ascii_lower_SPACE: "ascii_lower SPACE = SPACE"
  by (simp add: ascii_lower_def SPACE_def)

lemma ascii_lower_tag_text:
  "l \<in> {LETTER_p, LETTER_f, LETTER_c} \<Longrightarrow> map ascii_lower (tag_text l) = tag_text l"
  unfolding tag_text_def ascii_lower_def char_defs
  by (elim insertE emptyE; simp)

lemma SPACE_not_in_tag_text:
  "l \<in> {LETTER_p, LETTER_f, LETTER_c} \<Longrightarrow> SPACE \<notin> set (tag_text l)"
  unfolding tag_text_def char_defs
  by (elim insertE emptyE; simp)

lemma letters_distinct:
  "LETTER_p \<noteq> LETTER_f" "LETTER_p \<noteq> LETTER_c" "LETTER_f \<noteq> LETTER_c"
  "LETTER_f \<noteq> LETTER_p" "LETTER_c \<noteq> LETTER_p" "LETTER_c \<noteq> LETTER_f"
  by (simp_all add: char_defs)

lemma contains_tag_suffixed:
  assumes l: "l \<in> {LETTER_p, LETTER_f, LETTER_c}" and x: "x \<in> {LETTER_p, LETTER_f, LETTER_c}"
  shows "contains_tag l (n @ SPACE # tag_text x) \<longleftrightarrow> contains_tag l n \<or> l = x"
proof -
  have "contains_tag l (n @ SPACE # tag_text x) \<longleftrightarrow>
        sublist (tag_text l) (map ascii_lower n @ SPACE # tag_text x)"
    by (simp add: contains_tag_def ascii_lower_SPACE ascii_lower_tag_text [OF x])
  also have "\<dots> \<longleftrightarrow> sublist (tag_text l) (map ascii_lower n) \<or> sublist (tag_text l) (tag_text x)"
    by (rule sublist_across [OF SPACE_not_in_tag_text [OF l]]) (simp add: tag_text_def)
  also have "sublist (tag_text l) (tag_text x) \<longleftrightarrow> tag_text l = tag_text x"
    by (rule sublist_same_length) (simp add: tag_text_def)
  also have "tag_text l = tag_text x \<longleftrightarrow> l = x" by (simp add: tag_text_def)
  finally show ?thesis by (simp add: contains_tag_def)
qed

lemma remove_tags_Cons:
  "remove_tags (a # s) =
     (if tag_at (a # s) 0 then remove_tags (drop 3 s) else a # remove_tags s)"
  by (cases s rule: remove_tags.cases) (simp_all add: tag_at_0 tag_at_short)

lemma tag_at_contains:
  assumes "tag_at s i"
  shows "\<exists>l\<in>{LETTER_p, LETTER_f, LETTER_c}. contains_tag l s"
proof -
  from assms obtain l where l: "l \<in> {LETTER_p, LETTER_f, LETTER_c}"
    and t: "take 4 (drop i (map ascii_lower s)) = tag_text l"
    by (auto simp: tag_at_def)
  have "sublist (take 4 (drop i (map ascii_lower s))) (map ascii_lower s)"
    by (rule sublist_order.order_trans [OF sublist_take sublist_drop])
  with t have "contains_tag l s" by (simp add: contains_tag_def)
  with l show ?thesis by blast
qed

lemma tag_free_no_tag_at: "tag_free s \<Longrightarrow> \<not> tag_at s i"
  using tag_at_contains [of s i] by (auto simp: tag_free_def)

lemma tag_free_tl: "tag_free (a # s) \<Longrightarrow> tag_free s"
  by (auto simp: tag_free_def contains_tag_def sublist_Cons_right)

lemma tag_at_0_length: "tag_at s 0 \<Longrightarrow> 4 \<le> length s"
  using tag_at_short [of s 0] by (cases "length s < 4") auto

lemma tag_at_0_before_SPACE: "tag_at (u @ SPACE # v) 0 \<longleftrightarrow> tag_at u 0"
proof (cases "4 \<le> length u")
  case True
  then show ?thesis by (simp add: tag_at_def)
next
  case False
  then have "\<not> tag_at u 0" using tag_at_0_length by blast
  moreover have "\<not> tag_at (u @ SPACE # v) 0"
  proof
    assume "tag_at (u @ SPACE # v) 0"
    then obtain l where l: "l \<in> {LETTER_p, LETTER_f, LETTER_c}"
      and t: "take 4 (map ascii_lower (u @ SPACE # v)) = tag_text l"
      by (auto simp: tag_at_def)
    from False have "take 4 (map ascii_lower (u @ SPACE # v)) =
        map ascii_lower u @ SPACE # take (4 - length u - 1) (map ascii_lower v)"
      by (simp add: ascii_lower_SPACE take_Cons')
    with t have "SPACE \<in> set (tag_text l)" by (metis in_set_conv_decomp)
    with SPACE_not_in_tag_text [OF l] show False by simp
  qed
  ultimately show ?thesis by simp
qed

lemma remove_tags_tag_free_prefix:
  "tag_free n \<Longrightarrow> remove_tags (n @ SPACE # rest) = n @ SPACE # remove_tags rest"
proof (induction n)
  case Nil
  have "\<not> tag_at (SPACE # rest) 0"
    using tag_at_LPAREN [of SPACE rest] by (auto simp: char_defs)
  then show ?case by (simp add: remove_tags_Cons)
next
  case (Cons a n)
  have "tag_at (a # n @ SPACE # rest) 0 \<longleftrightarrow> tag_at (a # n) 0"
    using tag_at_0_before_SPACE [of "a # n" rest] by simp
  with Cons.prems have "\<not> tag_at (a # n @ SPACE # rest) 0"
    by (simp add: tag_free_no_tag_at)
  with Cons.IH [OF tag_free_tl [OF Cons.prems]] show ?case
    by (simp add: remove_tags_Cons)
qed

lemma remove_tags_tag_free: "tag_free n \<Longrightarrow> remove_tags n = n"
proof (induction n)
  case Nil
  show ?case by simp
next
  case (Cons a n)
  from Cons.prems have "\<not> tag_at (a # n) 0" by (rule tag_free_no_tag_at)
  with Cons.IH [OF tag_free_tl [OF Cons.prems]] show ?case
    by (simp add: remove_tags_Cons)
qed

lemma remove_tags_tag_text:
  "x \<in> {LETTER_p, LETTER_f, LETTER_c} \<Longrightarrow> remove_tags (tag_text x) = []"
  unfolding tag_text_def
  by (auto simp: match_any_tag_def match_tag_def ci_eq_def)

subsection \<open>One column\<close>

lemma js_tags:
  "js '' (pk)'' = SPACE # tag_text LETTER_p"
  "js '' (fk)'' = SPACE # tag_text LETTER_f"
  "js '' (ck)'' = SPACE # tag_text LETTER_c"
  "js '', '' = [COMMA, SPACE]"
  by (simp_all add: js_def tag_text_def char_defs)

lemma parse_column_suffixed:
  assumes n: "tag_free n" "n \<noteq> []" "\<not> is_ws (hd n)" "\<not> is_ws (last n)"
    and x: "x \<in> {LETTER_p, LETTER_f, LETTER_c}"
  shows "parse_column (n @ SPACE # tag_text x) =
           \<lparr>name = n, isPK = (x = LETTER_p), isFK = (x = LETTER_f), isCK = (x = LETTER_c)\<rparr>"
proof -
  have "remove_tags (n @ SPACE # tag_text x) = n @ [SPACE]"
    by (simp add: remove_tags_tag_free_prefix [OF n(1)] remove_tags_tag_text [OF x])
  then have "trim (remove_tags (n @ SPACE # tag_text x)) = n"
    by (simp add: trim_plain_SPACE [OF n(2,3,4)])
  moreover have "contains_tag l (n @ SPACE # tag_text x) \<longleftrightarrow> l = x"
    if "l \<in> {LETTER_p, LETTER_f, LETTER_c}" for l
    using contains_tag_suffixed [OF that x, of n] n(1) that by (auto simp: tag_free_def)
  ultimately show ?thesis
    by (simp add: parse_column_tagged tagged_column_def remove_tags_without_tags [symmetric]
        eq_commute [of x])
qed

lemma parse_column_bare:
  assumes n: "tag_free n" "n \<noteq> []" "\<not> is_ws (hd n)" "\<not> is_ws (last n)"
  shows "parse_column n = \<lparr>name = n, isPK = False, isFK = False, isCK = False\<rparr>"
  using n
  by (simp add: parse_column_tagged tagged_column_def remove_tags_without_tags [symmetric]
      remove_tags_tag_free trim_plain tag_free_def)

lemma parse_column_column_text:
  assumes "plain_column c"
  shows "parse_column (column_text c) = c"
proof -
  from assms have n: "tag_free (name c)" "name c \<noteq> []" "\<not> is_ws (hd (name c))"
    "\<not> is_ws (last (name c))"
    by (simp_all add: plain_column_def tag_free_def)
  from assms have f: "at_most_one_flag c" by (simp add: plain_column_def)
  consider (pk) "isPK c" | (fk) "\<not> isPK c" "isFK c" | (ck) "\<not> isPK c" "\<not> isFK c" "isCK c"
    | (none) "\<not> isPK c" "\<not> isFK c" "\<not> isCK c"
    by blast
  then show ?thesis
  proof cases
    case pk
    with f have "\<not> isFK c" "\<not> isCK c" by (auto simp: at_most_one_flag_def)
    with pk show ?thesis
      using parse_column_suffixed [OF n, of LETTER_p]
      by (simp add: column_text_def js_tags letters_distinct)
  next
    case fk
    with f have "\<not> isCK c" by (auto simp: at_most_one_flag_def)
    with fk show ?thesis
      using parse_column_suffixed [OF n, of LETTER_f]
      by (simp add: column_text_def js_tags letters_distinct)
  next
    case ck
    then show ?thesis
      using parse_column_suffixed [OF n, of LETTER_c]
      by (simp add: column_text_def js_tags letters_distinct)
  next
    case none
    then show ?thesis
      using parse_column_bare [OF n] by (simp add: column_text_def)
  qed
qed

lemma column_text_shape:
  assumes "plain_column c"
  shows "column_text c \<noteq> []" and "\<not> is_ws (hd (column_text c))"
    and "\<not> is_ws (last (column_text c))" and "COMMA \<notin> set (column_text c)"
proof -
  from assms have n: "name c \<noteq> []" "\<not> is_ws (hd (name c))" "\<not> is_ws (last (name c))"
    "COMMA \<notin> set (name c)"
    by (simp_all add: plain_column_def)
  obtain sfx where s: "column_text c = name c @ sfx"
    and sfx: "sfx = [] \<or> (\<exists>x. sfx = [SPACE, LPAREN, x, LETTER_k, RPAREN] \<and> x \<noteq> COMMA)"
    by (auto simp: column_text_def js_tags tag_text_def char_defs)
  from n s show "column_text c \<noteq> []" by simp
  from n s show "\<not> is_ws (hd (column_text c))" by simp
  from n s sfx show "\<not> is_ws (last (column_text c))" by (auto simp: not_ws_RPAREN)
  from n s sfx show "COMMA \<notin> set (column_text c)" by (auto simp: char_defs)
qed

lemma trim_pieces:
  assumes "list_all plain_column cs"
  shows "map trim (map ((#) SPACE) (map column_text cs)) = map column_text cs"
  using assms
  by (induction cs) (simp_all add: trim_SPACE trim_plain column_text_shape)

subsection \<open>The round trip\<close>

text \<open>
  Claim C6, as it stands, excludes from the names the substrings \<open>(pk)\<close>, \<open>(fk)\<close>,
  \<open>(ck)\<close> as they are written. The name \<open>a(PK)\<close> has none of them, and the column with
  this name and no flag comes back from the parser as the column \<open>a\<close> with the flag of a
  primary key.
\<close>

theorem columns_round_trip_upper_case:
  "list_all claimed_column [upper_case_tag_column] \<and>
   parse_columns (columns_text (Some [upper_case_tag_column])) =
     [\<lparr>name = js ''a'', isPK = True, isFK = False, isCK = False\<rparr>] \<and>
   parse_columns (columns_text (Some [upper_case_tag_column])) \<noteq> [upper_case_tag_column]"
proof -
  have "claimed_column upper_case_tag_column"
    by (simp add: claimed_column_def upper_case_tag_column_def at_most_one_flag_def js_def
        sublist_Cons_right is_ws_def char_defs)
  moreover have "parse_columns (columns_text (Some [upper_case_tag_column])) =
     [\<lparr>name = js ''a'', isPK = True, isFK = False, isCK = False\<rparr>]"
    by (simp add: upper_case_tag_column_def columns_text_def column_text_def
        parse_columns_def parse_column_def js_def trim_def is_ws_def
        match_tag_def match_any_tag_def ci_eq_def char_defs)
  ultimately show ?thesis by (simp add: upper_case_tag_column_def)
qed

text \<open>
  Claim C6, amended. For every list of columns that have at most one flag each and a name
  that is not empty, has no comma, has none of the three tags in any letter case, and has
  no whitespace at its ends: the text that \<open>onStartEdit\<close> puts into the form for the
  list, parsed by the column parser of \<open>addTable\<close>, is the list again.
\<close>

theorem columns_round_trip:
  assumes "list_all plain_column cols"
  shows "parse_columns (columns_text (Some cols)) = cols"
proof (cases cols)
  case Nil
  then show ?thesis by (simp add: columns_text_def parse_columns_def trim_def)
next
  case (Cons c cs)
  with assms have c: "plain_column c" and cs: "list_all plain_column cs" by simp_all
  let ?items = "map column_text cols"
  have no_comma: "\<forall>p\<in>set (column_text c # map column_text cs). COMMA \<notin> set p"
    using c cs column_text_shape(4) by (auto simp: list_all_iff)
  have "split_on COMMA (columns_text (Some cols)) =
        column_text c # map ((#) SPACE) (map column_text cs)"
    using split_on_join [OF no_comma] by (simp add: columns_text_def Cons js_tags)
  then have "map trim (split_on COMMA (columns_text (Some cols))) = ?items"
    using trim_pieces [OF cs] trim_plain [OF column_text_shape(1,2,3) [OF c]]
    by (simp add: Cons)
  moreover have "filter (\<lambda>i. i \<noteq> []) ?items = ?items"
    using assms column_text_shape(1) by (auto simp: list_all_iff filter_id_conv)
  moreover have "map parse_column ?items = cols"
    using assms parse_column_column_text by (simp add: list_all_iff map_idI)
  ultimately show ?thesis by (simp add: parse_columns_def)
qed

lemma demo_columns_plain: "list_all plain_column demo_columns_list"
  by (simp add: demo_columns_list_def plain_column_def at_most_one_flag_def contains_tag_def
      tag_text_def ascii_lower_def js_def sublist_Cons_right is_ws_def char_defs)

theorem columns_round_trip_witness:
  "list_all plain_column demo_columns_list \<and>
   columns_text (Some demo_columns_list) = js ''id (pk), user_id (fk), code (ck), created at'' \<and>
   parse_columns (js ''id (pk), user_id (fk), code (ck), created at'') = demo_columns_list"
proof -
  have t: "columns_text (Some demo_columns_list) =
           js ''id (pk), user_id (fk), code (ck), created at''"
    by (simp add: demo_columns_list_def columns_text_def column_text_def js_def)
  from columns_round_trip [OF demo_columns_plain] t demo_columns_plain
  show ?thesis by simp
qed

section \<open>Literals\<close>

lemma js_inject: "js a = js b \<longleftrightarrow> a = b"
proof -
  have inj: "inj (\<lambda>c::char. (of_nat (of_char c) :: uchar))"
  proof (rule injI)
    fix c d :: char
    assume e: "(of_nat (of_char c) :: uchar) = of_nat (of_char d)"
    have "(of_char c :: nat) < 2 ^ 16" "(of_char d :: nat) < 2 ^ 16"
      by (rule order_less_trans [OF nat_of_char_less_256], simp)+
    then have "(of_char c :: nat) = of_char d" using e
      by (simp add: word_of_nat_eq_iff take_bit_nat_eq_self)
    then show "c = d" by simp
  qed
  show ?thesis unfolding js_def by (simp add: inj_map_eq_map [OF inj])
qed

lemma js_Nil: "js a = [] \<longleftrightarrow> a = []"
  by (simp add: js_def)

lemmas demo_defs = demo_state_def users_node_def orders_node_def users_orders_def
  newEdge_def demo_platform_def

section \<open>Relationship edges\<close>

lemma markers_simps:
  "markers (js ''1:1'') =
     (None, Some (MarkerObject \<lparr>marker_type = ArrowClosed, marker_color = js ''#3b82f6'',
                                 marker_width = 15, marker_height = 15\<rparr>))"
  "markers (js ''1:N'') = (None, Some (MarkerId (js ''many-side'')))"
  "markers (js ''N:M'') = (Some (MarkerId (js ''many-side'')), Some (MarkerId (js ''many-side'')))"
  by (simp_all add: markers_def js_inject)

text \<open>
  Claim C3. \<open>onConnect\<close> hands to \<open>addEdge\<close> an edge between the two ends of the
  connection whose markers depend on the selected relationship type: for \<open>1:1\<close> a closed
  arrow at the target end and nothing at the start, for \<open>1:N\<close> the marker \<open>many-side\<close> at
  the target end and nothing at the start, for \<open>N:M\<close> the marker \<open>many-side\<close> at both
  ends; the three pairs of markers differ from each other.
\<close>

theorem onConnect_markers:
  "onConnect pf now params s =
     and_then (addEdge pf (newEdge (relType s) now params) (edges s))
       (\<lambda>eds. Inr (s\<lparr>edges := eds\<rparr>)) \<and>
   source (newEdge (relType s) now params) = source params \<and>
   target (newEdge (relType s) now params) = target params \<and>
   (relType s = js ''1:1'' \<longrightarrow>
      markerStart (newEdge (relType s) now params) = None \<and>
      markerEnd (newEdge (relType s) now params) =
        Some (MarkerObject \<lparr>marker_type = ArrowClosed, marker_color = js ''#3b82f6'',
                             marker_width = 15, marker_height = 15\<rparr>)) \<and>
   (relType s = js ''1:N'' \<longrightarrow>
      markerStart (newEdge (relType s) now params) = None \<and>
      markerEnd (newEdge (relType s) now params) = Some (MarkerId (js ''many-side''))) \<and>
   (relType s = js ''N:M'' \<longrightarrow>
      markerStart (newEdge (relType s) now params) = Some (MarkerId (js ''many-side'')) \<and>
      markerEnd (newEdge (relType s) now params) = Some (MarkerId (js ''many-side''))) \<and>
   distinct [markers (js ''1:1''), markers (js ''1:N''), markers (js ''N:M'')]"
  by (simp add: onConnect_def newEdge_def markers_simps)

theorem onConnect_markers_witness:
  "(relType (demo_state\<lparr>relType := js ''1:1''\<rparr>) = js ''1:1'' \<and>
    markerStart (newEdge (js ''1:1'') 1700000000500 users_orders) = None \<and>
    markerEnd (newEdge (js ''1:1'') 1700000000500 users_orders) =
      Some (MarkerObject \<lparr>marker_type = ArrowClosed, marker_color = js ''#3b82f6'',
                           marker_width = 15, marker_height = 15\<rparr>)) \<and>
   (relType demo_state = js ''1:N'' \<and>
    markerStart (newEdge (js ''1:N'') 1700000000500 users_orders) = None \<and>
    markerEnd (newEdge (js ''1:N'') 1700000000500 users_orders) =
      Some (MarkerId (js ''many-side''))) \<and>
   (relType (demo_state\<lparr>relType := js ''N:M''\<rparr>) = js ''N:M'' \<and>
    markerStart (newEdge (js ''N:M'') 1700000000500 users_orders) =
      Some (MarkerId (js ''many-side'')) \<and>
    markerEnd (newEdge (js ''N:M'') 1700000000500 users_orders) =
      Some (MarkerId (js ''many-side'')))"
  using
    onConnect_markers [of demo_platform 1700000000500 users_orders
                          "demo_state\<lparr>relType := js ''1:1''\<rparr>"]
    onConnect_markers [of demo_platform 1700000000500 users_orders demo_state]
    onConnect_markers [of demo_platform 1700000000500 users_orders
                          "demo_state\<lparr>relType := js ''N:M''\<rparr>"]
  by (simp add: demo_state_def)

section \<open>Deleting a node\<close>

text \<open>
  Claim C5. \<open>onDeleteNode\<close> keeps, in their order, exactly the nodes whose id is not the
  given one and exactly the edges that neither start nor end at it; nothing else of the
  state changes. So no node left has the id, no edge left refers to it, and every other
  node and edge is still there.
\<close>

theorem onDeleteNode_frame:
  assumes "nodes s = Array ns" and "edges s = Array es"
  shows "\<exists>ns' es'.
     onDeleteNode i s = Inr (s\<lparr>nodes := Array ns', edges := Array es'\<rparr>) \<and>
     ns' = filter (\<lambda>n. node_id n \<noteq> i) ns \<and>
     es' = filter (\<lambda>e. source e \<noteq> i \<and> target e \<noteq> i) es \<and>
     (\<forall>n\<in>set ns'. node_id n \<noteq> i) \<and>
     (\<forall>e\<in>set es'. source e \<noteq> i \<and> target e \<noteq> i) \<and>
     (\<forall>n\<in>set ns. node_id n \<noteq> i \<longrightarrow> n \<in> set ns') \<and>
     (\<forall>e\<in>set es. source e \<noteq> i \<and> target e \<noteq> i \<longrightarrow> e \<in> set es')"
  using assms by (simp add: onDeleteNode_def and_then_def)

theorem onDeleteNode_frame_witness:
  "nodes demo_state = Array [users_node, orders_node] \<and>
   edges demo_state = Array [newEdge (js ''1:N'') 1700000000000 users_orders] \<and>
   onDeleteNode (js ''node_1'') demo_state =
     Inr (demo_state\<lparr>nodes := Array [orders_node], edges := Array []\<rparr>)"
  using onDeleteNode_frame [of demo_state "[users_node, orders_node]"
      "[newEdge (js ''1:N'') 1700000000000 users_orders]" "js ''node_1''"]
  by (simp add: demo_defs js_inject)

section \<open>Renaming a legend entry\<close>

text \<open>
  Claim C7. \<open>handleRenameLegend\<close> gives a legend of the same length in which every entry
  keeps its place, its id and its colour; the entries with the given id get the new name,
  every other entry is the entry it was. The new legend is also written to storage.
\<close>

theorem handleRenameLegend_frame:
  assumes "legend s = Array ls"
  shows "\<exists>ls'.
     handleRenameLegend i newName s =
       Inr (s\<lparr>legend := Array ls',
              effects := effects s @ [SetItem (js ''legend'') (LegendJSON (Array ls'))]\<rparr>) \<and>
     length ls' = length ls \<and>
     (\<forall>k<length ls.
        legend_id (ls' ! k) = legend_id (ls ! k) \<and> hex (ls' ! k) = hex (ls ! k) \<and>
        (if legend_id (ls ! k) = i then ls' ! k = (ls ! k)\<lparr>legend_name := newName\<rparr>
         else ls' ! k = ls ! k))"
proof (rule exI [of _ "map (\<lambda>item. if legend_id item = i then item\<lparr>legend_name := newName\<rparr>
                                 else item) ls"])
qed (use assms in \<open>simp add: handleRenameLegend_def and_then_def emit_def\<close>)

theorem handleRenameLegend_frame_witness:
  "legend (demo_state\<lparr>legend := Array (take 3 INITIAL_LEGEND)\<rparr>) =
     Array (take 3 INITIAL_LEGEND) \<and>
   handleRenameLegend (js ''2'') (js ''Lake'')
       (demo_state\<lparr>legend := Array (take 3 INITIAL_LEGEND)\<rparr>) =
     Inr (demo_state
            \<lparr>legend := Array
               [\<lparr>legend_id = js ''1'', legend_name = js ''Reporting'', hex = js ''#fbbf24''\<rparr>,
                \<lparr>legend_id = js ''2'', legend_name = js ''Lake'', hex = js ''#94a3b8''\<rparr>,
                \<lparr>legend_id = js ''3'', legend_name = js ''Staging'', hex = js ''#cd7f32''\<rparr>],
             effects :=
               [SetItem (js ''legend'') (LegendJSON (Array
                 [\<lparr>legend_id = js ''1'', legend_name = js ''Reporting'', hex = js ''#fbbf24''\<rparr>,
                  \<lparr>legend_id = js ''2'', legend_name = js ''Lake'', hex = js ''#94a3b8''\<rparr>,
                  \<lparr>legend_id = js ''3'', legend_name = js ''Staging'',
                     hex = js ''#cd7f32''\<rparr>]))]\<rparr>)"
proof -
  let ?s = "demo_state\<lparr>legend := Array (take 3 INITIAL_LEGEND)\<rparr>"
  have l: "legend ?s = Array (take 3 INITIAL_LEGEND)" by simp
  from handleRenameLegend_frame [OF l, of "js ''2''" "js ''Lake''"]
  obtain ls' where r: "handleRenameLegend (js ''2'') (js ''Lake'') ?s =
       Inr (?s\<lparr>legend := Array ls',
              effects := effects ?s @ [SetItem (js ''legend'') (LegendJSON (Array ls'))]\<rparr>)"
    and n: "length ls' = length (take 3 INITIAL_LEGEND)"
    and k: "\<forall>k<length (take 3 INITIAL_LEGEND).
        if legend_id (take 3 INITIAL_LEGEND ! k) = js ''2''
        then ls' ! k = (take 3 INITIAL_LEGEND ! k)\<lparr>legend_name := js ''Lake''\<rparr>
        else ls' ! k = take 3 INITIAL_LEGEND ! k"
    by blast
  have t: "take 3 INITIAL_LEGEND =
      [\<lparr>legend_id = js ''1'', legend_name = js ''Reporting'', hex = js ''#fbbf24''\<rparr>,
       \<lparr>legend_id = js ''2'', legend_name = js ''Warehouse'', hex = js ''#94a3b8''\<rparr>,
       \<lparr>legend_id = js ''3'', legend_name = js ''Staging'', hex = js ''#cd7f32''\<rparr>]"
    by (simp add: INITIAL_LEGEND_def)
  from n t obtain a b c where ls': "ls' = [a, b, c]"
    by (cases ls'; cases "tl ls'"; cases "tl (tl ls')"; cases "tl (tl (tl ls'))") auto
  from k [rule_format, of 0] k [rule_format, of 1] k [rule_format, of 2]
  have "a = \<lparr>legend_id = js ''1'', legend_name = js ''Reporting'', hex = js ''#fbbf24''\<rparr>"
    "b = \<lparr>legend_id = js ''2'', legend_name = js ''Lake'', hex = js ''#94a3b8''\<rparr>"
    "c = \<lparr>legend_id = js ''3'', legend_name = js ''Staging'', hex = js ''#cd7f32''\<rparr>"
    unfolding t ls' by (simp_all add: js_inject)
  with r l ls' show ?thesis by (simp add: demo_state_def)
qed

section \<open>Adding and updating a table\<close>

lemma demo_columns:
  "parse_columns (js ''id (pk), user_id (fk)'') =
     [\<lparr>name = js ''id'', isPK = True, isFK = False, isCK = False\<rparr>,
      \<lparr>name = js ''user_id'', isPK = False, isFK = True, isCK = False\<rparr>]"
  by (simp add: parse_columns_def parse_column_def js_def trim_def is_ws_def
      match_tag_def match_any_tag_def ci_eq_def char_defs)

text \<open>
  Claim C2, as it stands, promises for every invocation during which a node is being
  edited that the data of this node is replaced and that the form is emptied. With an
  empty name field \<open>addTable\<close> returns at once: the edited node keeps its data and the
  schema text stays in the form.
\<close>

theorem addTable_editing_without_name:
  "editing (editingNodeId editing_without_name) \<and>
   nodes editing_without_name = Array [users_node, orders_node] \<and>
   Some (node_id users_node) = editingNodeId editing_without_name \<and>
   addTable 1700000000123 editing_without_name = Inr editing_without_name \<and>
   data users_node \<noteq> newNodeData editing_without_name \<and>
   schemaText editing_without_name \<noteq> []"
  by (simp add: editing_without_name_def addTable_def demo_defs newNodeData_def js_Nil)

text \<open>
  Nor is a node replaced when the node that was being edited has been deleted:
  \<open>onDeleteNode\<close> leaves the editing id as it is, and \<open>addTable\<close> then finds no node with
  this id; it replaces nothing and appends nothing, and it empties the form.
\<close>

lemma addTable_editing_deleted_node:
  "onDeleteNode (js ''node_1'') (onStartEdit (js ''node_1'') (data users_node) demo_state) =
     Inr editing_deleted_node \<and>
   editing (editingNodeId editing_deleted_node) \<and>
   tableName editing_deleted_node = js ''users'' \<and>
   nodes editing_deleted_node = Array [orders_node] \<and>
   addTable 1700000000123 editing_deleted_node =
     Inr (editing_deleted_node\<lparr>editingNodeId := None, tableName := [], schemaText := []\<rparr>)"
  by (simp add: editing_deleted_node_def onDeleteNode_def onStartEdit_def addTable_def
      and_then_def demo_defs js_inject js_Nil)

text \<open>
  Claim C2, amended. With an empty name \<open>addTable\<close> changes nothing, whether or not a
  node is being edited. With a name that is not empty and no editing id set, one node is
  put at the end of the nodes, with the name as its label, the selected colour and the
  parsed columns. With a name that is not empty and an editing id set, every node with
  this id gets the new label, colour and columns as its data and keeps everything else,
  its id and position among it; every other node is the node it was, and no node is added:
  where a node has the id, a node with the new data is there afterwards, and where none
  has it, as after the edited node was deleted, the nodes are the nodes they were. In both
  cases of a name that is not empty the name and the schema text of the form are empty
  afterwards, and nothing else of the state changes but the editing id, which is taken
  away.
\<close>

theorem addTable_adds_or_updates:
  assumes "nodes s = Array ns"
  shows "(tableName s = [] \<longrightarrow> addTable now s = Inr s) \<and>
         (tableName s \<noteq> [] \<and> \<not> editing (editingNodeId s) \<longrightarrow>
           (\<exists>n. addTable now s =
                  Inr (s\<lparr>nodes := Array (ns @ [n]), tableName := [], schemaText := []\<rparr>) \<and>
                label (data n) = tableName s \<and>
                color (data n) = selectedColor s \<and>
                columns (data n) = Some (parse_columns (schemaText s)))) \<and>
         (tableName s \<noteq> [] \<and> editing (editingNodeId s) \<longrightarrow>
           (\<exists>ns'. addTable now s =
                  Inr (s\<lparr>nodes := Array ns', editingNodeId := None,
                         tableName := [], schemaText := []\<rparr>) \<and>
                length ns' = length ns \<and>
                (\<forall>k<length ns.
                   if Some (node_id (ns ! k)) = editingNodeId s
                   then ns' ! k = (ns ! k)\<lparr>data := newNodeData s\<rparr> \<and>
                        node_id (ns' ! k) = node_id (ns ! k) \<and>
                        position (ns' ! k) = position (ns ! k) \<and>
                        label (data (ns' ! k)) = tableName s \<and>
                        color (data (ns' ! k)) = selectedColor s \<and>
                        columns (data (ns' ! k)) = Some (parse_columns (schemaText s))
                   else ns' ! k = ns ! k) \<and>
                ((\<exists>n\<in>set ns. Some (node_id n) = editingNodeId s) \<longrightarrow>
                   (\<exists>n'\<in>set ns'. Some (node_id n') = editingNodeId s \<and>
                                  data n' = newNodeData s)) \<and>
                ((\<forall>n\<in>set ns. Some (node_id n) \<noteq> editingNodeId s) \<longrightarrow> ns' = ns)))"
proof (intro conjI impI)
  assume "tableName s = []"
  then show "addTable now s = Inr s" by (simp add: addTable_def)
next
  assume "tableName s \<noteq> [] \<and> \<not> editing (editingNodeId s)"
  with assms show "\<exists>n. addTable now s =
                  Inr (s\<lparr>nodes := Array (ns @ [n]), tableName := [], schemaText := []\<rparr>) \<and>
                label (data n) = tableName s \<and>
                color (data n) = selectedColor s \<and>
                columns (data n) = Some (parse_columns (schemaText s))"
    by (intro exI [of _ "newNode now s"])
       (simp add: addTable_def and_then_def newNode_def newNodeData_def)
next
  let ?f = "\<lambda>n. if Some (node_id n) = editingNodeId s then n\<lparr>data := newNodeData s\<rparr> else n"
  assume e: "tableName s \<noteq> [] \<and> editing (editingNodeId s)"
  have found: "\<exists>n'\<in>set (map ?f ns). Some (node_id n') = editingNodeId s \<and>
                  data n' = newNodeData s"
    if "\<exists>n\<in>set ns. Some (node_id n) = editingNodeId s"
  proof -
    from that obtain n where n: "n \<in> set ns" "Some (node_id n) = editingNodeId s" by blast
    from n(1) have "?f n \<in> ?f ` set ns" by (rule imageI)
    then have m: "?f n \<in> set (map ?f ns)" by (simp only: set_map)
    from n(2) have "Some (node_id (?f n)) = editingNodeId s \<and> data (?f n) = newNodeData s"
      by simp
    with m show ?thesis by (rule bexI [rotated])
  qed
  have none: "map ?f ns = ns" if "\<forall>n\<in>set ns. Some (node_id n) \<noteq> editingNodeId s"
    using that by (simp add: map_idI)
  from assms e have "addTable now s =
      Inr (s\<lparr>nodes := Array (map ?f ns), editingNodeId := None,
             tableName := [], schemaText := []\<rparr>)"
    by (simp add: addTable_def and_then_def)
  with found none
  show "\<exists>ns'. addTable now s =
                  Inr (s\<lparr>nodes := Array ns', editingNodeId := None,
                         tableName := [], schemaText := []\<rparr>) \<and>
                length ns' = length ns \<and>
                (\<forall>k<length ns.
                   if Some (node_id (ns ! k)) = editingNodeId s
                   then ns' ! k = (ns ! k)\<lparr>data := newNodeData s\<rparr> \<and>
                        node_id (ns' ! k) = node_id (ns ! k) \<and>
                        position (ns' ! k) = position (ns ! k) \<and>
                        label (data (ns' ! k)) = tableName s \<and>
                        color (data (ns' ! k)) = selectedColor s \<and>
                        columns (data (ns' ! k)) = Some (parse_columns (schemaText s))
                   else ns' ! k = ns ! k) \<and>
                ((\<exists>n\<in>set ns. Some (node_id n) = editingNodeId s) \<longrightarrow>
                   (\<exists>n'\<in>set ns'. Some (node_id n') = editingNodeId s \<and>
                                  data n' = newNodeData s)) \<and>
                ((\<forall>n\<in>set ns. Some (node_id n) \<noteq> editingNodeId s) \<longrightarrow> ns' = ns)"
    by (intro exI [of _ "map ?f ns"]) (simp add: newNodeData_def)
qed

theorem addTable_adds_or_updates_witness:
  "nodes demo_state = Array [users_node, orders_node] \<and>
   tableName demo_state \<noteq> [] \<and>
   \<not> editing (editingNodeId demo_state) \<and>
   (\<exists>n. addTable 1700000000123 demo_state =
          Inr (demo_state\<lparr>nodes := Array ([users_node, orders_node] @ [n]),
                 tableName := [], schemaText := []\<rparr>) \<and>
        label (data n) = js ''orders'' \<and>
        columns (data n) =
          Some [\<lparr>name = js ''id'', isPK = True, isFK = False, isCK = False\<rparr>,
                \<lparr>name = js ''user_id'', isPK = False, isFK = True, isCK = False\<rparr>]) \<and>
   editing (editingNodeId (demo_state\<lparr>editingNodeId := Some (js ''node_2'')\<rparr>)) \<and>
   addTable 1700000000123 (demo_state\<lparr>editingNodeId := Some (js ''node_2'')\<rparr>) =
     Inr (demo_state\<lparr>nodes := Array [users_node, orders_node\<lparr>data := newNodeData demo_state\<rparr>],
            tableName := [], schemaText := []\<rparr>) \<and>
   tableName editing_without_name = [] \<and>
   addTable 1700000000123 editing_without_name = Inr editing_without_name"
proof -
  have n: "tableName demo_state \<noteq> []" "nodes demo_state = Array [users_node, orders_node]"
    "\<not> editing (editingNodeId demo_state)"
    by (simp_all add: demo_state_def js_Nil)
  have c: "parse_columns (schemaText demo_state) =
     [\<lparr>name = js ''id'', isPK = True, isFK = False, isCK = False\<rparr>,
      \<lparr>name = js ''user_id'', isPK = False, isFK = True, isCK = False\<rparr>]"
    using demo_columns by (simp add: demo_state_def)
  have t: "tableName demo_state = js ''orders''" by (simp add: demo_state_def)
  from addTable_adds_or_updates [OF n(2), of 1700000000123] n(1) n(3)
  have "\<exists>n. addTable 1700000000123 demo_state =
          Inr (demo_state\<lparr>nodes := Array ([users_node, orders_node] @ [n]),
                 tableName := [], schemaText := []\<rparr>) \<and>
        label (data n) = js ''orders'' \<and>
        columns (data n) =
          Some [\<lparr>name = js ''id'', isPK = True, isFK = False, isCK = False\<rparr>,
                \<lparr>name = js ''user_id'', isPK = False, isFK = True, isCK = False\<rparr>]"
    unfolding c t by blast
  moreover have "addTable 1700000000123 (demo_state\<lparr>editingNodeId := Some (js ''node_2'')\<rparr>) =
     Inr (demo_state\<lparr>nodes := Array [users_node, orders_node\<lparr>data := newNodeData demo_state\<rparr>],
            tableName := [], schemaText := []\<rparr>)"
    by (simp add: addTable_def and_then_def demo_defs newNodeData_def js_inject js_Nil)
  moreover have w: "nodes editing_without_name = Array [users_node, orders_node]"
    "tableName editing_without_name = []"
    by (simp_all add: editing_without_name_def demo_state_def)
  moreover from addTable_adds_or_updates [OF w(1), of 1700000000123] w(2)
  have "addTable 1700000000123 editing_without_name = Inr editing_without_name" by blast
  ultimately show ?thesis using n by (simp add: js_Nil)
qed

section \<open>The containers at the start\<close>

text \<open>
  Claim C9. Whatever storage holds under \<open>nodes\<close> and \<open>edges\<close>, and whatever \<open>getItem\<close> and
  \<open>JSON.parse\<close> do with it, the initial nodes and the initial edges are arrays: the parsed
  value when there is a text that is not empty and parsing it gives an array, and the empty
  array when the entry is absent or empty, when reading or parsing throws, and when the
  parsed value is not an array.
\<close>

theorem initial_containers:
  "isArray (nodes (initial_state pf)) \<and> isArray (edges (initial_state pf)) \<and>
   nodes (initial_state pf) =
     (case getItem pf (js ''nodes'') of
        Inr (Some text) \<Rightarrow>
          (if text = [] then Array []
           else (case parse_nodes pf text of Inr (Array xs) \<Rightarrow> Array xs | _ \<Rightarrow> Array []))
      | _ \<Rightarrow> Array []) \<and>
   edges (initial_state pf) =
     (case getItem pf (js ''edges'') of
        Inr (Some text) \<Rightarrow>
          (if text = [] then Array []
           else (case parse_edges pf text of Inr (Array xs) \<Rightarrow> Array xs | _ \<Rightarrow> Array []))
      | _ \<Rightarrow> Array [])"
  by (auto simp: initial_state_def load_array_def and_then_def
           split: sum.splits option.splits jsvalue.splits)

theorem initial_containers_witness:
  "nodes (initial_state demo_platform) = Array [] \<and>
   edges (initial_state demo_platform) = Array [] \<and>
   nodes (initial_state restoring_platform) = Array [users_node, orders_node] \<and>
   edges (initial_state restoring_platform) = Array []"
  using initial_containers [of demo_platform] initial_containers [of restoring_platform]
  by (simp add: demo_platform_def restoring_platform_def js_Nil)

section \<open>Export as JSON\<close>

text \<open>
  Claim C4. For the format \<open>json\<close>, \<open>exportDiagram\<close> succeeds in every state, an empty
  diagram included; it changes nothing of the state and causes one download, of the text
  of the object made of the current nodes, edges and legend, and of nothing else.
\<close>

theorem exportDiagram_json:
  "exportDiagram pf (js ''json'') now s =
     Inr (s\<lparr>effects := effects s @
            [DownloadBlob (js ''database_model_'' @ decimal now @ js ''.json'')
               (DiagramJSON (nodes s) (edges s) (legend s)) (js ''application/json'')]\<rparr>)"
  by (simp add: exportDiagram_def emit_def)

theorem exportDiagram_json_witness:
  "nodes (initial_state demo_platform) = Array [] \<and>
   exportDiagram demo_platform (js ''json'') 1700000000999 (initial_state demo_platform) =
     Inr ((initial_state demo_platform)\<lparr>effects :=
            [DownloadBlob (js ''database_model_'' @ decimal 1700000000999 @ js ''.json'')
               (DiagramJSON (Array []) (Array []) (Array INITIAL_LEGEND))
               (js ''application/json'')]\<rparr>)"
  using exportDiagram_json [of demo_platform 1700000000999 "initial_state demo_platform"]
  by (simp add: initial_state_def load_array_def load_legend_def and_then_def demo_platform_def)

section \<open>The containers stay arrays\<close>

lemma isArray_iff: "isArray v \<longleftrightarrow> (\<exists>xs. v = Array xs)"
  by (cases v) simp_all

lemma js_filter_Inr: "js_filter p v = Inr r \<Longrightarrow> isArray r"
  by (cases v) auto

lemma js_map_Inr: "js_map f v = Inr r \<Longrightarrow> isArray r"
  by (cases v) auto

lemma js_concat_Inr: "isArray v \<Longrightarrow> js_concat v x = Inr r \<Longrightarrow> isArray r"
  by (cases v) auto

lemma and_then_Inr: "and_then r f = Inr y \<longleftrightarrow> (\<exists>v. r = Inr v \<and> f v = Inr y)"
  by (cases r) (simp_all add: and_then_def)

lemma addTable_arrays:
  "isArray (nodes s) \<Longrightarrow> isArray (edges s) \<Longrightarrow> addTable now s = Inr s' \<Longrightarrow>
   isArray (nodes s') \<and> isArray (edges s')"
  by (auto simp: addTable_def and_then_Inr split: if_splits
           dest: js_map_Inr js_concat_Inr)

lemma onConnect_arrays:
  "library_returns_arrays pf \<Longrightarrow> isArray (nodes s) \<Longrightarrow> isArray (edges s) \<Longrightarrow>
   onConnect pf now params s = Inr s' \<Longrightarrow> isArray (nodes s') \<and> isArray (edges s')"
  by (auto simp: onConnect_def and_then_Inr library_returns_arrays_def isArray_iff)

lemma onDeleteNode_arrays:
  "onDeleteNode i s = Inr s' \<Longrightarrow> isArray (nodes s') \<and> isArray (edges s')"
  by (auto simp: onDeleteNode_def and_then_Inr dest: js_filter_Inr)

lemma deleteSelectedEdge_arrays:
  "isArray (nodes s) \<Longrightarrow> deleteSelectedEdge s = Inr s' \<Longrightarrow>
   isArray (nodes s') \<and> isArray (edges s')"
  by (auto simp: deleteSelectedEdge_def and_then_Inr dest: js_filter_Inr)

lemma onNodesChange_arrays:
  "library_returns_arrays pf \<Longrightarrow> isArray (nodes s) \<Longrightarrow> isArray (edges s) \<Longrightarrow>
   onNodesChange pf changes s = Inr s' \<Longrightarrow> isArray (nodes s') \<and> isArray (edges s')"
  by (auto simp: onNodesChange_def and_then_Inr library_returns_arrays_def isArray_iff)

lemma onEdgesChange_arrays:
  "library_returns_arrays pf \<Longrightarrow> isArray (nodes s) \<Longrightarrow> isArray (edges s) \<Longrightarrow>
   onEdgesChange pf changes s = Inr s' \<Longrightarrow> isArray (nodes s') \<and> isArray (edges s')"
  by (auto simp: onEdgesChange_def and_then_Inr library_returns_arrays_def isArray_iff)

lemma handleRenameLegend_arrays:
  "handleRenameLegend i newName s = Inr s' \<Longrightarrow> nodes s' = nodes s \<and> edges s' = edges s"
  by (auto simp: handleRenameLegend_def and_then_Inr emit_def)

lemma attach_handlers_arrays:
  "isArray (edges s) \<Longrightarrow> attach_handlers s = Inr s' \<Longrightarrow>
   isArray (nodes s') \<and> isArray (edges s')"
  by (auto simp: attach_handlers_def and_then_Inr dest: js_map_Inr)

lemma emit_containers [simp]:
  "nodes (emit e s) = nodes s" "edges (emit e s) = edges s" "legend (emit e s) = legend s"
  by (simp_all add: emit_def)

lemma exportDiagram_arrays:
  assumes "exportDiagram pf format now s = Inr s'"
  shows "nodes s' = nodes s \<and> edges s' = edges s"
proof (cases "format = js ''json''")
  case True
  with assms show ?thesis by (auto simp: exportDiagram_def)
next
  case json: False
  show ?thesis
  proof (cases "react_flow_element pf")
    case None
    with json assms show ?thesis by (simp add: exportDiagram_def)
  next
    case (Some element)
    with json assms obtain empty where e: "length_is_zero (nodes s) = Inr empty"
      by (auto simp: exportDiagram_def and_then_Inr)
    show ?thesis
    proof (cases empty)
      case True
      with json Some e assms show ?thesis by (simp add: exportDiagram_def and_then_def)
    next
      case False
      with json Some e assms show ?thesis
        by (cases "render pf format element (nodes s)")
           (auto simp: exportDiagram_def and_then_def)
    qed
  qed
qed

lemma perform_arrays:
  assumes lib: "library_returns_arrays pf" and n: "isArray (nodes s)" and e: "isArray (edges s)"
    and p: "perform pf a s = Inr s'"
  shows "isArray (nodes s') \<and> isArray (edges s')"
proof (cases a)
  case (AddTable now)
  with p have "addTable now s = Inr s'" by simp
  then show ?thesis by (rule addTable_arrays [OF n e])
next
  case (Connect now params)
  with p have "onConnect pf now params s = Inr s'" by simp
  then show ?thesis by (rule onConnect_arrays [OF lib n e])
next
  case (DeleteNode i)
  with p have "onDeleteNode i s = Inr s'" by simp
  then show ?thesis by (rule onDeleteNode_arrays)
next
  case DeleteSelectedEdge
  with p have "deleteSelectedEdge s = Inr s'" by simp
  then show ?thesis by (rule deleteSelectedEdge_arrays [OF n])
next
  case (NodesChange changes)
  with p have "onNodesChange pf changes s = Inr s'" by simp
  then show ?thesis by (rule onNodesChange_arrays [OF lib n e])
next
  case (EdgesChange changes)
  with p have "onEdgesChange pf changes s = Inr s'" by simp
  then show ?thesis by (rule onEdgesChange_arrays [OF lib n e])
next
  case (StartEdit i d)
  with p have "s' = onStartEdit i d s" by simp
  with n e show ?thesis by (simp add: onStartEdit_def)
next
  case (RenameLegend i newName)
  with p have "handleRenameLegend i newName s = Inr s'" by simp
  from handleRenameLegend_arrays [OF this] n e show ?thesis by simp
next
  case AttachHandlers
  with p have "attach_handlers s = Inr s'" by simp
  then show ?thesis by (rule attach_handlers_arrays [OF e])
next
  case Persist
  with p have "s' = persist s" by simp
  with n e show ?thesis by (simp add: persist_def)
next
  case (Export format now)
  with p have "exportDiagram pf format now s = Inr s'" by simp
  from exportDiagram_arrays [OF this] n e show ?thesis by simp
next
  case (SetTableName v)
  with p have "s' = s\<lparr>tableName := v\<rparr>" by simp
  with n e show ?thesis by simp
next
  case (SetSchemaText v)
  with p have "s' = s\<lparr>schemaText := v\<rparr>" by simp
  with n e show ?thesis by simp
next
  case (SetSelectedColor v)
  with p have "s' = s\<lparr>selectedColor := v\<rparr>" by simp
  with n e show ?thesis by simp
next
  case (SetRelType v)
  with p have "s' = s\<lparr>relType := v\<rparr>" by simp
  with n e show ?thesis by simp
next
  case (SetEdgeToDelete v)
  with p have "s' = s\<lparr>edgeToDelete := v\<rparr>" by simp
  with n e show ?thesis by simp
next
  case (SetRenamingId v)
  with p have "s' = s\<lparr>renamingId := v\<rparr>" by simp
  with n e show ?thesis by simp
next
  case (SetShowExportToast v)
  with p have "s' = s\<lparr>showExportToast := v\<rparr>" by simp
  with n e show ?thesis by simp
qed

lemma initial_arrays:
  "isArray (nodes (initial_state pf)) \<and> isArray (edges (initial_state pf))"
  by (auto simp: initial_state_def load_array_def split: sum.splits)

lemma reachable_arrays:
  assumes "library_returns_arrays pf" and "reachable pf s"
  shows "isArray (nodes s) \<and> isArray (edges s)"
  using assms(2)
proof (induction rule: reachable.induct)
  case start
  show ?case by (rule initial_arrays)
next
  case (step s a s')
  then show ?case using perform_arrays [OF assms(1)] by blast
qed

text \<open>
  Claim C10. The containers of the nodes and of the edges are arrays at the start; every
  step of the application that returns, taken in a state where both are arrays, leaves both
  arrays; so both are arrays in every state the application reaches. The canvas library is
  taken to return an array whenever \<open>applyNodeChanges\<close>, \<open>applyEdgeChanges\<close> or \<open>addEdge\<close>
  is given one.
\<close>

theorem containers_stay_arrays:
  assumes "library_returns_arrays pf"
  shows "isArray (nodes (initial_state pf)) \<and> isArray (edges (initial_state pf)) \<and>
         (\<forall>a s s'. isArray (nodes s) \<and> isArray (edges s) \<and> perform pf a s = Inr s'
                    \<longrightarrow> isArray (nodes s') \<and> isArray (edges s')) \<and>
         (\<forall>s. reachable pf s \<longrightarrow> isArray (nodes s) \<and> isArray (edges s))"
  using assms initial_arrays perform_arrays reachable_arrays by blast

lemma demo_library: "library_returns_arrays demo_platform"
  by (simp add: library_returns_arrays_def demo_platform_def)

lemma demo_reachable:
  "reachable demo_platform
     ((initial_state demo_platform)\<lparr>nodes := Array [newNode 1700000000123
         ((initial_state demo_platform)\<lparr>tableName := js ''users''\<rparr>)]\<rparr>)"
proof -
  let ?s0 = "initial_state demo_platform"
  have r0: "reachable demo_platform ?s0" by (rule reachable.start)
  have "perform demo_platform (SetTableName (js ''users'')) ?s0 = Inr (?s0\<lparr>tableName := js ''users''\<rparr>)"
    by simp
  from reachable.step [OF r0 this]
  have r1: "reachable demo_platform (?s0\<lparr>tableName := js ''users''\<rparr>)" .
  have "perform demo_platform (AddTable 1700000000123) (?s0\<lparr>tableName := js ''users''\<rparr>) =
        Inr (?s0\<lparr>nodes := Array [newNode 1700000000123 (?s0\<lparr>tableName := js ''users''\<rparr>)]\<rparr>)"
    by (simp add: addTable_def and_then_def initial_state_def load_array_def demo_platform_def
        js_Nil)
  from reachable.step [OF r1 this] show ?thesis .
qed

theorem containers_stay_arrays_witness:
  "library_returns_arrays demo_platform \<and>
   reachable demo_platform
     ((initial_state demo_platform)\<lparr>nodes := Array [newNode 1700000000123
         ((initial_state demo_platform)\<lparr>tableName := js ''users''\<rparr>)]\<rparr>) \<and>
   isArray (nodes ((initial_state demo_platform)\<lparr>nodes := Array [newNode 1700000000123
         ((initial_state demo_platform)\<lparr>tableName := js ''users''\<rparr>)]\<rparr>)) \<and>
   isArray (edges ((initial_state demo_platform)\<lparr>nodes := Array [newNode 1700000000123
         ((initial_state demo_platform)\<lparr>tableName := js ''users''\<rparr>)]\<rparr>))"
  using containers_stay_arrays [OF demo_library] demo_library demo_reachable by blast

section \<open>Export as an image\<close>

subsection \<open>The options for the renderer\<close>







subsection \<open>The export\<close>




end
